theory Spec2Isabelle
  imports Complex_Main "HOL-Library.Monad_Syntax"
begin

section \<open>The RLE core engine (lab/monitoring/rle_core.py)\<close>

text \<open>
  A shallow embedding of class \<open>RLECore\<close>. Python floats are modelled as real numbers
  (exact arithmetic, no rounding); Python ints as \<open>int\<close>; an optional argument as an
  \<open>option\<close>. The attributes assigned once in \<open>__init__\<close> form the record \<open>config\<close>, the
  attributes mutated by \<open>compute_rle\<close> form the record \<open>engine\<close>, and every method takes
  the engine and returns the new one.

  A Python expression that can raise is a value of type \<open>'a option\<close> with \<open>None\<close> for the
  exception: float division (ZeroDivisionError), indexing (IndexError),
  \<open>statistics.pstdev\<close> (StatisticsError), \<open>math.log\<close> (ValueError), and a fractional power
  of a negative float (the result is a complex number, and the \<open>min\<close>/\<open>max\<close> that follows
  in the source raises TypeError). The methods are written in the option monad, so an
  exception anywhere aborts the call, as in Python.

  Float arithmetic itself does not raise in Python: a product or quotient whose value is
  beyond the range of a double is an infinity. The range matters where a float is
  converted to an integer, because \<open>int\<close> and \<open>round\<close> raise OverflowError on an infinity
  (ValueError on NaN). The model keeps the exact value of every float expression and
  takes the float to be an infinity when that value rounds to one (\<open>float_inf\<close>); the two
  conversions fail on such a value.
\<close>

subsection \<open>Python primitives\<close>

definition py_div :: "real \<Rightarrow> real \<Rightarrow> real option" where
  "py_div x y = (if y = 0 then None else Some (x / y))"

definition py_pow :: "real \<Rightarrow> real \<Rightarrow> real option" where
  \<comment> \<open>\<open>x ** y\<close> for a non-integer exponent \<open>y\<close> (0.5 and 1/3 in the source)\<close>
  "py_pow x y = (if x < 0 then None else Some (x powr y))"

definition py_log :: "real \<Rightarrow> real option" where
  "py_log x = (if x \<le> 0 then None else Some (ln x))"

definition py_idx :: "'a list \<Rightarrow> int \<Rightarrow> 'a option" where
  \<comment> \<open>\<open>xs[i]\<close>; a negative index counts from the end\<close>
  "py_idx xs i =
     (let j = (if i < 0 then int (length xs) + i else i)
      in if 0 \<le> j \<and> j < int (length xs) then Some (xs ! nat j) else None)"

definition py_slice_from :: "'a list \<Rightarrow> int \<Rightarrow> 'a list" where
  \<comment> \<open>\<open>xs[i:]\<close>; slicing never raises\<close>
  "py_slice_from xs i =
     (if i < 0 then drop (nat (int (length xs) + i)) xs else drop (nat i) xs)"

definition float_inf :: "real \<Rightarrow> bool" where
  \<comment> \<open>the double nearest to \<open>x\<close> is an infinity: \<open>x\<close> is at least half a unit in the last
     place beyond the largest finite double, \<open>(2 ^ 53 - 1) * 2 ^ 971\<close>\<close>
  "float_inf x = (\<bar>x\<bar> \<ge> 2 ^ 1024 - 2 ^ 970)"

definition py_round :: "real \<Rightarrow> int option" where
  \<comment> \<open>\<open>round(x)\<close>: to the nearest integer, ties to the even one; OverflowError on an infinity\<close>
  "py_round x =
     (if float_inf x then None
      else let f = \<lfloor>x\<rfloor>; d = x - of_int f
           in Some (if d < 0.5 then f else if d > 0.5 then f + 1
                    else if even f then f else f + 1))"

definition py_int :: "real \<Rightarrow> int option" where
  \<comment> \<open>\<open>int(x)\<close>: truncation towards zero; OverflowError on an infinity\<close>
  "py_int x = (if float_inf x then None else Some (if 0 \<le> x then \<lfloor>x\<rfloor> else \<lceil>x\<rceil>))"

definition py_or :: "real option \<Rightarrow> real option \<Rightarrow> real option" where
  \<comment> \<open>\<open>a or b\<close> on optional floats: \<open>None\<close> and \<open>0.0\<close> are falsy\<close>
  "py_or a b = (case a of None \<Rightarrow> b | Some x \<Rightarrow> if x = 0 then b else Some x)"

definition pstdev :: "real list \<Rightarrow> real option" where
  \<comment> \<open>\<open>statistics.pstdev\<close>: the population standard deviation\<close>
  "pstdev xs =
     (if xs = [] then None
      else let n = real (length xs); mu = sum_list xs / n
           in Some (sqrt (sum_list (map (\<lambda>x. (x - mu) * (x - mu)) xs) / n)))"

subsection \<open>Data classes\<close>

record RLEResult =
  rle_raw :: real
  rle_smoothed :: real
  e_th :: real
  e_pw :: real
  rle_norm :: real
  stability :: real
  a_load :: real
  t_sustain_s :: real
  rolling_peak :: real
  collapse :: int
  alerts :: string
  F_mu :: real
  F_q :: real
  F_s :: real
  F_p :: real
  rle_raw_ms :: real
  rle_smoothed_ms :: real
  rle_norm_ms :: real
  rle_raw_uni :: real
  rle_smoothed_uni :: real
  rle_norm_uni :: real
  T0_s :: real
  theta_index :: real
  T_sustain_hat :: real
  theta_gap :: int
  Gamma :: real
  log_Gamma :: real

record ControlDecision =
  state :: string
  cpu_freq_limit_ghz :: "real option"
  gpu_freq_limit_ghz :: "real option"
  fan_speed_pct :: "int option"
  power_limit_pct :: "int option"
  workload_reduction_pct :: "int option"

text \<open>The keyword arguments of \<open>RLECore.__init__\<close>, and the attributes it stores.\<close>

record config =
  rated_power_w :: real
  temp_limit_c :: real
  max_t_sustain_s :: real
  smooth_n :: int
  rolling_decay :: real
  drop_frac :: real
  hysteresis_s :: int
  util_gate_pct :: real
  a_load_gate :: real
  enable_micro_scale :: bool
  sensor_temp_lsb_c :: real
  low_power_knee_w :: real
  enable_theta_clock :: bool
  theta_update_sec :: real
  theta_min_s :: real
  theta_max_s :: real
  use_theta_windows :: bool
  stability_window_theta :: real
  smooth_window_theta :: "real option"
  hysteresis_theta :: "real option"

text \<open>The mutable attributes of an engine (\<open>self._t0_s\<close> is \<open>t0_s\<close>, and so on).\<close>

record engine =
  util_hist :: "real list"
  temp_hist :: "real list"
  rle_hist :: "real list"
  rle_hist_ms :: "real list"
  rle_hist_uni :: "real list"
  peak :: real
  below_ctr :: int
  t0_s :: real
  theta_idx :: real
  theta_c :: real
  since_theta_update_s :: real
  buf_rle_sm :: "real list"
  buf_temp :: "real list"
  buf_dt :: "real list"

text \<open>One telemetry sample: the arguments of one \<open>compute_rle\<close> call.\<close>

record sample =
  util_pct :: real
  temp_c :: "real option"
  power_w :: "real option"
  dt_s :: real

definition default_config :: config where
  "default_config =
     \<lparr>rated_power_w = 100, temp_limit_c = 85, max_t_sustain_s = 600, smooth_n = 5,
      rolling_decay = 0.998, drop_frac = 0.65, hysteresis_s = 7, util_gate_pct = 60,
      a_load_gate = 0.75, enable_micro_scale = False, sensor_temp_lsb_c = 0.1,
      low_power_knee_w = 3, enable_theta_clock = True, theta_update_sec = 60,
      theta_min_s = 5, theta_max_s = 600, use_theta_windows = False,
      stability_window_theta = 5, smooth_window_theta = None, hysteresis_theta = None\<rparr>"

definition init_config :: "config \<Rightarrow> config" where
  \<comment> \<open>the attributes \<open>__init__\<close> stores for the given keyword arguments\<close>
  "init_config a =
     a\<lparr>smooth_n := max 1 (smooth_n a),
       theta_update_sec := max 5 (theta_update_sec a),
       theta_min_s := max 0.001 (theta_min_s a),
       theta_max_s := max (max 0.001 (theta_min_s a)) (theta_max_s a)\<rparr>"

definition rb_len :: nat where
  "rb_len = 1024"

definition init_engine :: engine where
  "init_engine =
     \<lparr>util_hist = [], temp_hist = [], rle_hist = [], rle_hist_ms = [], rle_hist_uni = [],
      peak = 0, below_ctr = 0, t0_s = 60, theta_idx = 0, theta_c = 0,
      since_theta_update_s = 0, buf_rle_sm = [], buf_temp = [], buf_dt = []\<rparr>"

subsection \<open>Window helpers\<close>

definition mean_dt :: "engine \<Rightarrow> real option" where
  "mean_dt e =
     (if buf_dt e = [] then Some 1
      else py_div (sum_list (buf_dt e)) (real (length (buf_dt e))))"

definition theta_window_to_n :: "config \<Rightarrow> engine \<Rightarrow> real \<Rightarrow> int option" where
  "theta_window_to_n cfg e theta_window = do {
     dt_mean \<leftarrow> mean_dt e;
     dtheta_mean \<leftarrow> py_div dt_mean (max (t0_s e) 0.000001);
     q \<leftarrow> py_div theta_window (max dtheta_mean 0.000001);
     n0 \<leftarrow> py_round q;
     let n = max 3 n0;
     q2 \<leftarrow> py_div (theta_update_sec cfg) (max dt_mean 0.000001);
     samples_in_update \<leftarrow> py_round q2;
     let cap = max 12 (4 * samples_in_update);
     Some (min n cap)
   }"

definition rolling_mean :: "real list \<Rightarrow> int \<Rightarrow> real option" where
  "rolling_mean data n =
     (if data = [] then Some 0
      else if int (length data) \<le> n then py_div (sum_list data) (real (length data))
      else py_div (sum_list (py_slice_from data (- n))) (real_of_int n))"

definition rolling_stdev :: "real list \<Rightarrow> int \<Rightarrow> real option" where
  "rolling_stdev data n =
     (if length data < 2 then Some 0
      else pstdev (if int (length data) \<ge> n then py_slice_from data (- n) else data))"

subsection \<open>Components\<close>

record components =
  eta :: real
  stability_c :: real
  a_load_c :: real
  t_sustain :: real

definition compute_t_sustain :: "real \<Rightarrow> real list \<Rightarrow> real \<Rightarrow> real \<Rightarrow> real option" where
  "compute_t_sustain temp_limit temp_hist' dt max_t =
     (if length temp_hist' < 2 then Some max_t
      else do {
        t1 \<leftarrow> py_idx temp_hist' (- 1);
        t2 \<leftarrow> py_idx temp_hist' (- 2);
        let dT = t1 - t2;
        q \<leftarrow> py_div dT (max dt 0.001);
        let dTdt = max q 0.001;
        t_sus \<leftarrow> py_div (temp_limit - t1) dTdt;
        Some (max (min t_sus max_t) 1)
      })"

definition compute_components ::
  "config \<Rightarrow> engine \<Rightarrow> real \<Rightarrow> real option \<Rightarrow> real option \<Rightarrow> real \<Rightarrow> (components \<times> engine) option" where
  "compute_components cfg e util temp pw dt = do {
     let e1 = e\<lparr>util_hist := util_hist e @ [max 0 (min 100 util)]\<rparr>;
     let e2 = (case temp of None \<Rightarrow> e1 | Some t \<Rightarrow> e1\<lparr>temp_hist := temp_hist e1 @ [t]\<rparr>);
     eta' \<leftarrow> (if util_hist e2 \<noteq> [] then do { u \<leftarrow> py_idx (util_hist e2) (- 1); py_div u 100 }
              else Some 0);
     n_stab \<leftarrow> (if enable_theta_clock cfg \<and> use_theta_windows cfg
                    \<and> stability_window_theta cfg \<noteq> 0 \<and> stability_window_theta cfg > 0
                 then theta_window_to_n cfg e2 (stability_window_theta cfg) else Some 5);
     stdev \<leftarrow> rolling_stdev (util_hist e2) n_stab;
     stab \<leftarrow> py_div 1 (1 + stdev);
     let p = (case pw of None \<Rightarrow> rated_power_w cfg * eta'
              | Some w \<Rightarrow> if w > 0 then w else rated_power_w cfg * eta');
     al \<leftarrow> py_div p (max (rated_power_w cfg) 0.000001);
     t_sus \<leftarrow> compute_t_sustain (temp_limit_c cfg) (temp_hist e2) dt (max_t_sustain_s cfg);
     Some (\<lparr>eta = eta', stability_c = stab, a_load_c = al, t_sustain = t_sus\<rparr>, e2)
   }"

subsection \<open>Micro-scale correction\<close>

definition compute_micro_scale_factor ::
  "config \<Rightarrow> engine \<Rightarrow> real option \<Rightarrow> real option \<Rightarrow> real \<Rightarrow> real \<Rightarrow> real
     \<Rightarrow> (real \<times> real \<times> real \<times> real \<times> real \<times> real) option" where
  "compute_micro_scale_factor cfg e pw temp dt dtheta T0 =
     (if \<not> enable_micro_scale cfg then Some (1, 1, 1, 1, 0, 0)
      else do {
        let k_B = 1380649 / 10 ^ 29;
        T_c \<leftarrow> (case temp of Some t \<Rightarrow> Some t
                 | None \<Rightarrow> if temp_hist e \<noteq> [] then py_idx (temp_hist e) (- 1) else Some 25);
        let T_K = max (T_c + 273.15) 273.15;
        let P = max (case pw of None \<Rightarrow> 0 | Some w \<Rightarrow> if w = 0 then 0 else w) 0.000001;
        let dt' = max dt 0.001;
        let quantum_scale_J = k_B * T_K;
        Gam \<leftarrow> py_div (P * max T0 0.000000001) (max quantum_scale_J (1 / 10 ^ 30));
        let N_q = Gam * max dtheta 0;
        let Fq = 1 - exp (- (min N_q 50));
        sigma_T \<leftarrow> (if length (temp_hist e) \<ge> 2 then rolling_stdev (temp_hist e) 5
                    else Some 0.000001);
        q \<leftarrow> py_div (sensor_temp_lsb_c cfg) (max sigma_T 0.000001);
        Fs \<leftarrow> py_div 1 (1 + q ^ 2);
        Fp \<leftarrow> py_div P (P + low_power_knee_w cfg);
        Fmu \<leftarrow> py_pow (Fq * Fs * Fp) (1 / 3);
        let Fmu' = max 0.000000001 (min 1 Fmu);
        logG \<leftarrow> (if Gam > 0 then py_log (max Gam (1 / 10 ^ 30)) else Some (- 1000000000));
        Some (Fmu', Fq, Fs, Fp, Gam, logG)
      })"

definition w_from_fmu :: "real \<Rightarrow> real option" where
  \<comment> \<open>the nested function \<open>_w_from_fmu\<close> of \<open>compute_rle\<close>\<close>
  "w_from_fmu f =
     (let hi = 0.98; lo = 0.90
      in if f \<ge> hi then Some 0
         else if f \<le> lo then Some 1
         else do { q \<leftarrow> py_div (hi - f) (hi - lo); Some (max 0 (min 1 q)) })"

subsection \<open>Theta clock\<close>

definition rb_push :: "real list \<Rightarrow> real \<Rightarrow> real list" where
  \<comment> \<open>\<open>buf.append(x); if len(buf) > self._rb_len: buf.pop(0)\<close>\<close>
  "rb_push buf x = (let b = buf @ [x] in if length b > rb_len then tl b else b)"

definition estimate_tau_th :: "config \<Rightarrow> real list \<Rightarrow> real \<Rightarrow> real option option" where
  \<comment> \<open>lines 263 to 272: the thermal time constant proxy; the inner \<open>None\<close> is Python's\<close>
  "estimate_tau_th cfg buf dt_mean =
     (if length buf \<ge> 8 then do {
        let window = py_slice_from buf (- int (min (length buf) 256));
        derivs \<leftarrow> those (map (\<lambda>i. do {
                     q \<leftarrow> py_div (window ! i - window ! (i - 1)) (max dt_mean 0.000001);
                     Some (max q 0) }) [1..<length window]);
        avg_dTdt \<leftarrow> py_div (sum_list derivs) (real (max (length derivs) 1));
        if avg_dTdt > 0.000001 then do {
          q \<leftarrow> py_div 10 avg_dTdt;
          Some (Some (min (max q (theta_min_s cfg)) (theta_max_s cfg)))
        } else Some None
      } else Some None)"

definition harmonic_mean :: "real option \<Rightarrow> real option \<Rightarrow> real option option" where
  \<comment> \<open>the nested function \<open>_harmonic_mean\<close>\<close>
  "harmonic_mean a b =
     (case (a, b) of
        (Some x, Some y) \<Rightarrow>
          if x \<noteq> 0 \<and> y \<noteq> 0 \<and> x > 0 \<and> y > 0
          then map_option Some (py_div (2 * x * y) (x + y))
          else Some (py_or a b)
      | _ \<Rightarrow> Some (py_or a b))"

fun autocorr_scan ::
  "real list \<Rightarrow> real \<Rightarrow> int list \<Rightarrow> int option \<Rightarrow> real \<Rightarrow> (int option \<times> real) option" where
  "autocorr_scan series mean [] best_k best_r = Some (best_k, best_r)"
| "autocorr_scan series mean (k # ks) best_k best_r = do {
     let n = length series;
     let num = sum_list (map (\<lambda>i. (series ! i - mean) * (series ! (i - nat k) - mean)) [nat k..<n]);
     let den = max (sum_list (map (\<lambda>i. (series ! i - mean) * (series ! i - mean)) [0..<n]))
                   (1 / 10 ^ 12);
     r \<leftarrow> py_div num den;
     if r > best_r then autocorr_scan series mean ks (Some k) r
     else autocorr_scan series mean ks best_k best_r
   }"

text \<open>
  In \<open>estimate_T_peak\<close> the minimum lag is \<open>int(min_lag_sec / max(dt_mean, 1e-6))\<close>
  (line 301). The divisor is a finite float of at least \<open>1e-6\<close> or an infinity, so the
  quotient is an infinity or NaN whenever \<open>min_lag_sec\<close> is an infinity, which it is when
  the product \<open>2.0 * dt_win_s\<close> of line 298 leaves the range of a double; the quotient of
  two finite floats can leave the range as well. In each case \<open>int\<close> raises.
\<close>

definition estimate_T_peak ::
  "real list \<Rightarrow> real \<Rightarrow> real \<Rightarrow> real option \<Rightarrow> real option option" where
  \<comment> \<open>lines 290 to 312: the first autocorrelation peak of the smoothed score\<close>
  "estimate_T_peak buf dt_mean dt_win_s tau_th_est =
     (if length buf \<ge> 32 then do {
        let series = py_slice_from buf (- int (min (length buf) 512));
        let n = length series;
        mean \<leftarrow> py_div (sum_list series) (real n);
        var \<leftarrow> py_div (sum_list (map (\<lambda>x. (x - mean) * (x - mean)) series)) (real (max n 1));
        if var > 0 then do {
          let min_lag_sec0 = 2 * dt_win_s;
          let min_lag_sec = (case tau_th_est of None \<Rightarrow> min_lag_sec0
                             | Some t \<Rightarrow> if t \<noteq> 0 then max min_lag_sec0 (1.5 * t)
                                         else min_lag_sec0);
          q \<leftarrow> py_div min_lag_sec (max dt_mean 0.000001);
          lag \<leftarrow> (if float_inf min_lag_sec then None else py_int q);
          let min_lag = max 1 lag;
          let max_k = min (int n div 2) 256;
          (best_k, best_r) \<leftarrow> autocorr_scan series mean [min_lag..max_k - 1] None 0;
          (case best_k of None \<Rightarrow> Some None
           | Some k \<Rightarrow> if best_r \<ge> 0.3 then Some (Some (real_of_int k * dt_mean))
                       else Some None)
        } else Some None
      } else Some None)"

definition reestimate_t0 :: "config \<Rightarrow> engine \<Rightarrow> real option" where
  \<comment> \<open>lines 259 to 328 of \<open>_theta_update_if_needed\<close>: the new value of \<open>self._t0_s\<close>\<close>
  "reestimate_t0 cfg e = do {
     dt_mean \<leftarrow> py_div (sum_list (buf_dt e)) (real (length (buf_dt e)));
     let dt_win_s = dt_mean * real (min (length (buf_dt e)) 256);
     tau_th_est \<leftarrow> estimate_tau_th cfg (buf_temp e) dt_mean;
     let tau_sus_est = None;
     tau_eff \<leftarrow> harmonic_mean tau_th_est tau_sus_est;
     T_peak0 \<leftarrow> estimate_T_peak (buf_rle_sm e) dt_mean dt_win_s tau_th_est;
     let T_peak = (case T_peak0 of None \<Rightarrow> tau_eff | Some t \<Rightarrow> Some t);
     T0_candidate \<leftarrow>
       (case tau_eff of None \<Rightarrow> Some T_peak
        | Some te \<Rightarrow>
            (case T_peak of None \<Rightarrow> Some tau_eff
             | Some tp \<Rightarrow> map_option Some (py_pow (tp * te) 0.5)));
     let T0_candidate' = (case T0_candidate of None \<Rightarrow> t0_s e | Some c \<Rightarrow> c);
     let cand = min (max T0_candidate' (theta_min_s cfg)) (theta_max_s cfg);
     let alpha = 0.2;
     let ema = (1 - alpha) * t0_s e + alpha * cand;
     let up = t0_s e * 1.10;
     let down = t0_s e * 0.90;
     Some (min (max ema down) up)
   }"

definition theta_update_if_needed ::
  "config \<Rightarrow> engine \<Rightarrow> real \<Rightarrow> real option \<Rightarrow> real \<Rightarrow> engine option" where
  "theta_update_if_needed cfg e rle_sm temp dt =
     (if \<not> enable_theta_clock cfg then Some (e\<lparr>buf_dt := rb_push (buf_dt e) dt\<rparr>)
      else
        let e1 = e\<lparr>buf_rle_sm := rb_push (buf_rle_sm e) rle_sm\<rparr>;
            e2 = (case temp of None \<Rightarrow> e1 | Some t \<Rightarrow> e1\<lparr>buf_temp := rb_push (buf_temp e1) t\<rparr>);
            e3 = e2\<lparr>buf_dt := rb_push (buf_dt e2) dt\<rparr>;
            e4 = e3\<lparr>since_theta_update_s := since_theta_update_s e3 + dt\<rparr>
        in if since_theta_update_s e4 < theta_update_sec cfg then Some e4
           else
             let e5 = e4\<lparr>since_theta_update_s := 0\<rparr>
             in if buf_dt e5 = [] then Some e5
                else do {
                  t0_new \<leftarrow> reestimate_t0 cfg e5;
                  Some (e5\<lparr>t0_s := t0_new\<rparr>)
                })"

definition theta_advance :: "config \<Rightarrow> engine \<Rightarrow> real \<Rightarrow> (real \<times> int \<times> engine) option" where
  \<comment> \<open>lines 380 to 392 of \<open>compute_rle\<close>: the gap flag, \<open>dtheta\<close>, and the Kahan sum\<close>
  "theta_advance cfg e dt =
     (if enable_theta_clock cfg then do {
        gap \<leftarrow> (if buf_dt e \<noteq> [] then do {
                   let sdt = sort (buf_dt e);
                   med_dt \<leftarrow> py_idx sdt (int (length sdt) div 2);
                   Some (if dt > 3 * max med_dt 0.000001 then 1 else 0)
                 } else Some 0);
        dtheta \<leftarrow> py_div dt (max (t0_s e) 0.000001);
        let y = dtheta - theta_c e;
        let t = theta_idx e + y;
        Some (dtheta, gap, e\<lparr>theta_c := (t - theta_idx e) - y, theta_idx := t\<rparr>)
      } else Some (0, 0, e))"

subsection \<open>Smoothing, collapse detection, normalisation\<close>

definition smooth_rle :: "config \<Rightarrow> engine \<Rightarrow> real \<Rightarrow> int option \<Rightarrow> (real \<times> engine) option" where
  "smooth_rle cfg e raw override_n =
     (let e1 = e\<lparr>rle_hist := rle_hist e @ [raw]\<rparr>;
          n = (case override_n of None \<Rightarrow> smooth_n cfg
               | Some m \<Rightarrow> if m > 0 then m else smooth_n cfg)
      in map_option (\<lambda>m. (m, e1)) (rolling_mean (rle_hist e1) n))"

definition detect_collapse ::
  "config \<Rightarrow> engine \<Rightarrow> real \<Rightarrow> real \<Rightarrow> real \<Rightarrow> real option \<Rightarrow> real \<Rightarrow> (int \<times> engine) option" where
  "detect_collapse cfg e rle_sm util al temp t_sus =
     (let warm = (int (length (rle_hist e)) \<ge> max (smooth_n cfg) 5)
      in if \<not> warm then Some (0, e\<lparr>peak := 0, below_ctr := 0\<rparr>)
         else do {
           let e1 = e\<lparr>peak := max rle_sm (peak e * rolling_decay cfg)\<rparr>;
           let under_load = (util > util_gate_pct cfg \<or> al > a_load_gate cfg);
           heating \<leftarrow> (if length (temp_hist e1) \<ge> 2 \<and> temp \<noteq> None then do {
                          t1 \<leftarrow> py_idx (temp_hist e1) (- 1);
                          t2 \<leftarrow> py_idx (temp_hist e1) (- 2);
                          Some (t1 - t2 > 0.05)
                        } else Some False);
           let gate = (under_load \<and> heating);
           let dropped = (rle_sm < drop_frac cfg * max (peak e1) 0.000001);
           let e2 = (if gate \<and> dropped then e1\<lparr>below_ctr := below_ctr e1 + 1\<rparr>
                     else e1\<lparr>below_ctr := 0\<rparr>);
           hysteresis_samples \<leftarrow>
             (case hysteresis_theta cfg of None \<Rightarrow> Some (hysteresis_s cfg)
              | Some h \<Rightarrow>
                  if enable_theta_clock cfg \<and> use_theta_windows cfg \<and> h \<noteq> 0 \<and> h > 0
                  then map_option (max 1) (theta_window_to_n cfg e2 h)
                  else Some (hysteresis_s cfg));
           let collapsed_flag = (below_ctr e2 \<ge> hysteresis_samples);
           let thermal_evidence =
             (t_sus < 60 \<or> (case temp of None \<Rightarrow> False | Some t \<Rightarrow> t > temp_limit_c cfg - 5));
           let power_evidence = (al > 0.95);
           Some (if collapsed_flag \<and> (thermal_evidence \<or> power_evidence) then 1 else 0, e2)
         })"

definition normalize_rle :: "real \<Rightarrow> real \<Rightarrow> string option \<Rightarrow> real option" where
  \<comment> \<open>the third argument is \<open>None\<close> when the caller leaves \<open>device_type\<close> to its default\<close>
  "normalize_rle rle util device_type_arg =
     (let device_type = (case device_type_arg of None \<Rightarrow> ''cpu'' | Some d \<Rightarrow> d);
          (baseline, optimal, peak_load) =
             (if device_type = ''cpu'' then (0.3, 5, 67) else (0.1, 3, 60));
          u = max 0 (min 100 util)
      in do {
        expected \<leftarrow> (if u \<le> peak_load then do {
                        q \<leftarrow> py_div u peak_load;
                        Some (baseline + (optimal - baseline) * q)
                      } else do {
                        q \<leftarrow> py_div (u - peak_load) (100 - peak_load);
                        Some (optimal - (optimal - baseline * 0.5) * q)
                      });
        q \<leftarrow> py_div rle (max expected 0.000001);
        Some (max 0 (min 1 q))
      })"

subsection \<open>The per-sample pipeline\<close>

definition smooth_window_n :: "config \<Rightarrow> engine \<Rightarrow> int option option" where
  \<comment> \<open>lines 372 to 374 of \<open>compute_rle\<close>: \<open>n_smooth\<close>; the inner \<open>None\<close> is Python's\<close>
  "smooth_window_n cfg e =
     (case smooth_window_theta cfg of None \<Rightarrow> Some None
      | Some w \<Rightarrow>
          if enable_theta_clock cfg \<and> use_theta_windows cfg \<and> w \<noteq> 0 \<and> w > 0
          then map_option Some (theta_window_to_n cfg e w) else Some None)"

definition compute_rle ::
  "config \<Rightarrow> engine \<Rightarrow> real \<Rightarrow> real option \<Rightarrow> real option \<Rightarrow> real \<Rightarrow> (RLEResult \<times> engine) option" where
  "compute_rle cfg e util temp pw dt = do {
     (c, e1) \<leftarrow> compute_components cfg e util temp pw dt;
     q \<leftarrow> py_div 1 (max (t_sustain c) 0.000001);
     let denom = max (a_load_c c) 0.000001 * (1 + q);
     rle_raw_core \<leftarrow> py_div (eta c * stability_c c) denom;
     n_smooth \<leftarrow> smooth_window_n cfg e1;
     (rle_smooth_core, e2) \<leftarrow> smooth_rle cfg e1 rle_raw_core n_smooth;
     e3 \<leftarrow> theta_update_if_needed cfg e2 rle_smooth_core temp dt;
     (dtheta, gap, e4) \<leftarrow> theta_advance cfg e3 dt;
     (Fmu, Fq, Fs, Fp, Gam, logG) \<leftarrow> compute_micro_scale_factor cfg e4 pw temp dt dtheta (t0_s e4);
     let raw_ms = rle_raw_core * Fmu;
     let e5 = e4\<lparr>rle_hist_ms := rle_hist_ms e4 @ [raw_ms]\<rparr>;
     let n_win = (case n_smooth of None \<Rightarrow> smooth_n cfg
                  | Some m \<Rightarrow> if m \<noteq> 0 then m else smooth_n cfg);
     smooth_ms \<leftarrow> rolling_mean (rle_hist_ms e5) n_win;
     w \<leftarrow> w_from_fmu Fmu;
     let raw_uni = rle_raw_core * (1 - w) + raw_ms * w;
     let e6 = e5\<lparr>rle_hist_uni := rle_hist_uni e5 @ [raw_uni]\<rparr>;
     smooth_uni \<leftarrow> rolling_mean (rle_hist_uni e6) n_win;
     q' \<leftarrow> py_div 1 (max (t_sustain c) 0.000001);
     eth \<leftarrow> py_div (stability_c c) (1 + q');
     epw \<leftarrow> py_div (eta c) (max (a_load_c c) 0.000001);
     norm_core \<leftarrow> normalize_rle rle_smooth_core util None;
     norm_ms \<leftarrow> normalize_rle smooth_ms util None;
     norm_uni \<leftarrow> normalize_rle smooth_uni util None;
     (collapsed, e7) \<leftarrow> detect_collapse cfg e6 rle_smooth_core util (a_load_c c) temp (t_sustain c);
     let T0_s_out = (if enable_theta_clock cfg then t0_s e7 else 0);
     hat \<leftarrow> (if enable_theta_clock cfg \<and> T0_s_out > 0
              then py_div (t_sustain c) (max T0_s_out 0.000001) else Some 0);
     Some (\<lparr>rle_raw = rle_raw_core, rle_smoothed = rle_smooth_core, e_th = eth, e_pw = epw,
             rle_norm = norm_core, stability = stability_c c, a_load = a_load_c c,
             t_sustain_s = t_sustain c, rolling_peak = peak e7, collapse = collapsed,
             alerts = [], F_mu = Fmu, F_q = Fq, F_s = Fs, F_p = Fp,
             rle_raw_ms = raw_ms, rle_smoothed_ms = smooth_ms, rle_norm_ms = norm_ms,
             rle_raw_uni = raw_uni, rle_smoothed_uni = smooth_uni, rle_norm_uni = norm_uni,
             T0_s = T0_s_out, theta_index = theta_idx e7, T_sustain_hat = hat,
             theta_gap = gap, Gamma = Gam, log_Gamma = logG\<rparr>, e7)
   }"

text \<open>
  Feeding a sample sequence to one engine, one \<open>compute_rle\<close> call per sample (the loop of
  \<open>augment_csv\<close>). The run keeps, for every sample, the result record and the engine after
  the call; an exception in any call aborts the run.
\<close>

fun run_rle :: "config \<Rightarrow> engine \<Rightarrow> sample list \<Rightarrow> (RLEResult \<times> engine) list option" where
  "run_rle cfg e [] = Some []"
| "run_rle cfg e (s # ss) = do {
     (r, e') \<leftarrow> compute_rle cfg e (util_pct s) (temp_c s) (power_w s) (dt_s s);
     rest \<leftarrow> run_rle cfg e' ss;
     Some ((r, e') # rest)
   }"

subsection \<open>Control decisions\<close>

definition control_decision ::
  "engine \<Rightarrow> real \<Rightarrow> real option \<Rightarrow> real option \<Rightarrow> ControlDecision \<times> engine" where
  "control_decision e rle_current rle_predicted thermal_headroom_c =
     (let pred = (case rle_predicted of None \<Rightarrow> rle_current | Some p \<Rightarrow> p);
          headroom_bonus = (case thermal_headroom_c of None \<Rightarrow> 0
                            | Some h \<Rightarrow> if h > 5 then - 10 else (0::int))
      in if rle_current < 0.2 \<or> pred < 0.1
         then (\<lparr>state = ''emergency'', cpu_freq_limit_ghz = Some 0.8,
                 gpu_freq_limit_ghz = Some 0.2, fan_speed_pct = Some (max 0 (100 + headroom_bonus)),
                 power_limit_pct = Some 50, workload_reduction_pct = Some 50\<rparr>, e)
         else if rle_current < 0.4 \<or> pred < 0.3
         then (\<lparr>state = ''aggressive'', cpu_freq_limit_ghz = Some 1.2,
                 gpu_freq_limit_ghz = Some 0.5, fan_speed_pct = Some (max 0 (80 + headroom_bonus)),
                 power_limit_pct = Some 70, workload_reduction_pct = Some 25\<rparr>, e)
         else if rle_current < 0.6 \<or> pred < 0.5
         then (\<lparr>state = ''moderate'', cpu_freq_limit_ghz = Some 2.5,
                 gpu_freq_limit_ghz = Some 0.9, fan_speed_pct = Some (max 0 (60 + headroom_bonus)),
                 power_limit_pct = Some 85, workload_reduction_pct = Some 10\<rparr>, e)
         else (\<lparr>state = ''maintain'', cpu_freq_limit_ghz = None, gpu_freq_limit_ghz = None,
                 fan_speed_pct = None, power_limit_pct = None, workload_reduction_pct = None\<rparr>, e))"

section \<open>Definitions that follow the specification's words\<close>

definition clamp :: "real \<Rightarrow> real \<Rightarrow> real \<Rightarrow> real" where
  \<comment> \<open>\<open>clamp(x, lo, hi)\<close>\<close>
  "clamp x lo hi = max lo (min x hi)"

definition t_sustain_spec :: "real \<Rightarrow> real list \<Rightarrow> real \<Rightarrow> real \<Rightarrow> real" where
  \<comment> \<open>section 4.2, step 5 of the specification\<close>
  "t_sustain_spec temp_limit T dt max_sustain =
     (if length T < 2 then max_sustain
      else clamp ((temp_limit - last T) / max ((last T - last (butlast T)) / dt) 0.001)
             1 max_sustain)"

definition level :: "real \<Rightarrow> real \<Rightarrow> real \<Rightarrow> real \<Rightarrow> nat" where
  \<comment> \<open>the rank of the first of three ascending thresholds that \<open>x\<close> is below (3 when none)\<close>
  "level t1 t2 t3 x = (if x < t1 then 0 else if x < t2 then 1 else if x < t3 then 2 else 3)"

definition state_name :: "nat \<Rightarrow> string" where
  \<comment> \<open>the four ordered states, emergency first\<close>
  "state_name k =
     (if k = 0 then ''emergency'' else if k = 1 then ''aggressive''
      else if k = 2 then ''moderate'' else ''maintain'')"

definition normalize_with :: "real \<Rightarrow> real \<Rightarrow> real \<Rightarrow> real \<Rightarrow> real \<Rightarrow> real" where
  \<comment> \<open>section 4.2, step 9: the normalisation for given anchors (baseline, optimal, peak load)\<close>
  "normalize_with baseline optimal peak_load rle util =
     (let u = max 0 (min 100 util);
          expected = (if u \<le> peak_load then baseline + (optimal - baseline) * (u / peak_load)
                      else optimal - (optimal - baseline * 0.5) * ((u - peak_load) / (100 - peak_load)))
      in max 0 (min 1 (rle / max expected 0.000001)))"

definition idle_sample :: sample where
  \<comment> \<open>the idle sample of the example scenario in section 8\<close>
  "idle_sample = \<lparr>util_pct = 5, temp_c = Some 40, power_w = Some 10, dt_s = 1\<rparr>"

definition warm_sample :: sample where
  \<comment> \<open>the idle sample, one degree below the temperature limit\<close>
  "warm_sample = \<lparr>util_pct = 5, temp_c = Some 84, power_w = Some 10, dt_s = 1\<rparr>"

definition final_engine :: "engine \<Rightarrow> (RLEResult \<times> engine) list \<Rightarrow> engine" where
  \<comment> \<open>the engine after a run that started from \<open>e\<close>\<close>
  "final_engine e out = (if out = [] then e else snd (last out))"

(*DEFS-END*)

section \<open>Python primitives that do not raise\<close>

lemma py_div_nz: "y \<noteq> 0 \<Longrightarrow> py_div x y = Some (x / y)"
  by (simp add: py_div_def)

lemma py_div_pos: "0 < y \<Longrightarrow> py_div x y = Some (x / y)"
  by (simp add: py_div_def)

lemma max_eps_pos: "0 < e \<Longrightarrow> 0 < max x (e::real)"
  by (simp add: less_max_iff_disj)

lemma py_div_max: "0 < e \<Longrightarrow> py_div x (max y e) = Some (x / max y e)"
  by (rule py_div_pos) (rule max_eps_pos)

lemma py_idx_last: "xs \<noteq> [] \<Longrightarrow> py_idx xs (- 1) = Some (last xs)"
  by (cases xs rule: rev_cases) (simp_all add: py_idx_def nth_append)

lemma py_idx_last2: "2 \<le> length xs \<Longrightarrow> py_idx xs (- 2) = Some (last (butlast xs))"
proof (cases xs rule: rev_cases)
  case Nil
  assume "2 \<le> length xs"
  with Nil show ?thesis by simp
next
  case (snoc ys y)
  assume len: "2 \<le> length xs"
  with snoc have ne: "ys \<noteq> []" by auto
  then obtain zs z where ys: "ys = zs @ [z]" by (cases ys rule: rev_cases) auto
  show ?thesis
    unfolding snoc ys by (simp add: py_idx_def nth_append butlast_append)
qed

section \<open>Sustain time\<close>

text \<open>
  Claim C7, as stated, fails: for a sampling interval \<open>dt_s\<close> between 0 and 0.001 the
  source divides the temperature step by \<open>max(dt_s, 1e-3)\<close>, not by \<open>dt_s\<close>. With the
  history \<open>[50, 50.001]\<close>, limit 85 and \<open>dt_s = 0.0005\<close> the source returns 34.999, the
  formula of the specification 17.4995.
\<close>

theorem t_sustain_counterexample:
  "(0::real) < 0.0005 \<and>
   compute_t_sustain 85 [50, 50.001] 0.0005 600
     \<noteq> Some (t_sustain_spec 85 [50, 50.001] 0.0005 600)"
  by (simp add: compute_t_sustain_def t_sustain_spec_def clamp_def py_idx_def py_div_def)

text \<open>
  Claim C7, amended: for every call (whatever \<open>dt_s\<close> is) with fewer than 2 temperatures
  in the history, \<open>compute_t_sustain\<close> returns \<open>max_sustain_s\<close>; otherwise, with
  \<open>dt_s \<ge> 0.001\<close>, it returns
  \<open>clamp((temp_limit_c - T[-1]) / max((T[-1] - T[-2]) / dt_s, 1e-3), 1.0, max_sustain_s)\<close>.
  In both cases the call returns, it does not raise.
\<close>

theorem t_sustain_amended:
  "(length T < 2 \<longrightarrow> compute_t_sustain temp_limit T dt max_t = Some max_t) \<and>
   (0.001 \<le> dt \<longrightarrow>
      compute_t_sustain temp_limit T dt max_t = Some (t_sustain_spec temp_limit T dt max_t)) \<and>
   (2 \<le> length T \<longrightarrow>
      t_sustain_spec temp_limit T dt max_t =
        clamp ((temp_limit - last T) / max ((last T - last (butlast T)) / dt) 0.001) 1 max_t)"
proof (intro conjI impI)
  assume "length T < 2"
  then show "compute_t_sustain temp_limit T dt max_t = Some max_t"
    by (simp add: compute_t_sustain_def)
next
  assume dt: "0.001 \<le> dt"
  show "compute_t_sustain temp_limit T dt max_t = Some (t_sustain_spec temp_limit T dt max_t)"
  proof (cases "length T < 2")
    case True
    then show ?thesis by (simp add: compute_t_sustain_def t_sustain_spec_def)
  next
    case False
    then have len: "2 \<le> length T" and ne: "T \<noteq> []" by auto
    have m: "max dt (1 / 1000) = dt" using dt by simp
    have nz: "dt \<noteq> 0" using dt by auto
    show ?thesis
      using False
      by (simp add: compute_t_sustain_def t_sustain_spec_def clamp_def py_idx_last [OF ne]
          py_idx_last2 [OF len] py_div_max py_div_nz [OF nz] m Let_def max.commute)
  qed
next
  assume "2 \<le> length T"
  then show "t_sustain_spec temp_limit T dt max_t =
      clamp ((temp_limit - last T) / max ((last T - last (butlast T)) / dt) 0.001) 1 max_t"
    by (simp add: t_sustain_spec_def)
qed

theorem t_sustain_amended_witness:
  "length [40::real] < 2 \<and> compute_t_sustain 85 [40] 0 600 = Some 600 \<and>
   (0.001::real) \<le> 1 \<and> 2 \<le> length [40::real, 41] \<and>
   compute_t_sustain 85 [40, 41] 1 600 = Some 44 \<and>
   clamp ((85 - last [40, 41]) / max ((last [40, 41] - last (butlast [40, 41])) / 1) 0.001) 1 600
     = (44::real)"
  using t_sustain_amended [where T = "[40]" and temp_limit = 85 and dt = 0 and max_t = 600]
    t_sustain_amended [where T = "[40, 41]" and temp_limit = 85 and dt = 1 and max_t = 600]
  by (simp add: t_sustain_spec_def clamp_def)

section \<open>The stages of one call\<close>

text \<open>
  A call that returns went through every stage; the lemmas below name the intermediate
  engines and say which attributes each stage touches.
\<close>

lemma compute_rle_stages:
  assumes "compute_rle cfg e util temp pw dt = Some (r, e')"
  shows "\<exists>c e1 q n_smooth e2 e3 dtheta e4 w.
    compute_components cfg e util temp pw dt = Some (c, e1) \<and>
    py_div 1 (max (t_sustain c) 0.000001) = Some q \<and>
    py_div (eta c * stability_c c) (max (a_load_c c) 0.000001 * (1 + q)) = Some (rle_raw r) \<and>
    smooth_window_n cfg e1 = Some n_smooth \<and>
    smooth_rle cfg e1 (rle_raw r) n_smooth = Some (rle_smoothed r, e2) \<and>
    theta_update_if_needed cfg e2 (rle_smoothed r) temp dt = Some e3 \<and>
    theta_advance cfg e3 dt = Some (dtheta, theta_gap r, e4) \<and>
    compute_micro_scale_factor cfg e4 pw temp dt dtheta (t0_s e4)
      = Some (F_mu r, F_q r, F_s r, F_p r, Gamma r, log_Gamma r) \<and>
    rle_raw_ms r = rle_raw r * F_mu r \<and>
    rolling_mean (rle_hist_ms e4 @ [rle_raw_ms r])
      (case n_smooth of None \<Rightarrow> smooth_n cfg | Some m \<Rightarrow> if m \<noteq> 0 then m else smooth_n cfg)
      = Some (rle_smoothed_ms r) \<and>
    w_from_fmu (F_mu r) = Some w \<and>
    rle_raw_uni r = rle_raw r * (1 - w) + rle_raw_ms r * w \<and>
    rolling_mean (rle_hist_uni e4 @ [rle_raw_uni r])
      (case n_smooth of None \<Rightarrow> smooth_n cfg | Some m \<Rightarrow> if m \<noteq> 0 then m else smooth_n cfg)
      = Some (rle_smoothed_uni r) \<and>
    normalize_rle (rle_smoothed r) util None = Some (rle_norm r) \<and>
    normalize_rle (rle_smoothed_ms r) util None = Some (rle_norm_ms r) \<and>
    normalize_rle (rle_smoothed_uni r) util None = Some (rle_norm_uni r) \<and>
    detect_collapse cfg
      (e4\<lparr>rle_hist_ms := rle_hist_ms e4 @ [rle_raw_ms r],
          rle_hist_uni := rle_hist_uni e4 @ [rle_raw_uni r]\<rparr>)
      (rle_smoothed r) util (a_load_c c) temp (t_sustain c) = Some (collapse r, e') \<and>
    rolling_peak r = peak e' \<and> a_load r = a_load_c c \<and> t_sustain_s r = t_sustain c \<and>
    stability r = stability_c c \<and>
    T0_s r = (if enable_theta_clock cfg then t0_s e' else 0) \<and> theta_index r = theta_idx e'"
  using assms unfolding compute_rle_def
  by (clarsimp simp: bind_eq_Some_conv Let_def split: prod.splits)



lemma compute_components_engine:
  assumes "compute_components cfg e util temp pw dt = Some (c, e1)"
  shows "e1 = e\<lparr>util_hist := util_hist e @ [max 0 (min 100 util)],
                 temp_hist := (case temp of None \<Rightarrow> temp_hist e | Some t \<Rightarrow> temp_hist e @ [t])\<rparr>"
  using assms unfolding compute_components_def
  by (cases temp) (clarsimp simp: bind_eq_Some_conv Let_def)+

lemma smooth_rle_engine:
  assumes "smooth_rle cfg e raw n = Some (sm, e2)"
  shows "e2 = e\<lparr>rle_hist := rle_hist e @ [raw]\<rparr>"
  using assms unfolding smooth_rle_def by (auto simp: Let_def)

lemma theta_update_engine:
  assumes "theta_update_if_needed cfg e sm temp dt = Some e3"
  shows "\<exists>since t0. e3 = e\<lparr>
      buf_rle_sm := (if enable_theta_clock cfg then rb_push (buf_rle_sm e) sm else buf_rle_sm e),
      buf_temp := (if enable_theta_clock cfg
                   then (case temp of None \<Rightarrow> buf_temp e | Some t \<Rightarrow> rb_push (buf_temp e) t)
                   else buf_temp e),
      buf_dt := rb_push (buf_dt e) dt,
      since_theta_update_s := since, t0_s := t0\<rparr>"
proof (cases "enable_theta_clock cfg")
  case False
  with assms have "e3 = e\<lparr>buf_dt := rb_push (buf_dt e) dt\<rparr>"
    by (simp add: theta_update_if_needed_def)
  with False show ?thesis
    by (intro exI [of _ "since_theta_update_s e"] exI [of _ "t0_s e"]) simp
next
  case True
  define e4 where "e4 = e\<lparr>
      buf_rle_sm := rb_push (buf_rle_sm e) sm,
      buf_temp := (case temp of None \<Rightarrow> buf_temp e | Some t \<Rightarrow> rb_push (buf_temp e) t),
      buf_dt := rb_push (buf_dt e) dt\<rparr>"
  have "e3 = e4\<lparr>since_theta_update_s := since_theta_update_s e + dt\<rparr>
      \<or> e3 = e4\<lparr>since_theta_update_s := 0\<rparr>
      \<or> (\<exists>t. e3 = e4\<lparr>since_theta_update_s := 0, t0_s := t\<rparr>)"
    using assms True unfolding theta_update_if_needed_def Let_def e4_def
    by (cases temp) (auto simp: bind_eq_Some_conv split: if_splits)
  then consider "e3 = e4\<lparr>since_theta_update_s := since_theta_update_s e + dt, t0_s := t0_s e\<rparr>"
    | "e3 = e4\<lparr>since_theta_update_s := 0, t0_s := t0_s e\<rparr>"
    | t where "e3 = e4\<lparr>since_theta_update_s := 0, t0_s := t\<rparr>"
    by (auto simp: e4_def)
  then show ?thesis
  proof cases
    case 1
    then show ?thesis using True unfolding e4_def
      by - (rule exI [of _ "since_theta_update_s e + dt"], rule exI [of _ "t0_s e"], simp)
  next
    case 2
    then show ?thesis using True unfolding e4_def
      by - (rule exI [of _ 0], rule exI [of _ "t0_s e"], simp)
  next
    case 3
    then show ?thesis using True unfolding e4_def
      by - (rule exI [of _ 0], rule exI [of _ t], simp)
  qed
qed

lemma theta_advance_engine:
  assumes "theta_advance cfg e dt = Some (dtheta, gap, e4)"
  shows "\<exists>c i. e4 = e\<lparr>theta_c := c, theta_idx := i\<rparr>"
proof (cases "enable_theta_clock cfg")
  case False
  with assms have "e4 = e" by (simp add: theta_advance_def)
  then show ?thesis
    by (intro exI [of _ "theta_c e"] exI [of _ "theta_idx e"]) simp
next
  case True
  with assms show ?thesis
    unfolding theta_advance_def Let_def by (auto simp: bind_eq_Some_conv intro: exI)
qed

lemma detect_collapse_engine:
  assumes "detect_collapse cfg e sm util al temp t = Some (flag, e')"
  shows "\<exists>p k. e' = e\<lparr>peak := p, below_ctr := k\<rparr>"
  using assms unfolding detect_collapse_def Let_def
  by (auto simp: bind_eq_Some_conv split: if_splits)


lemma compute_rle_frame:
  assumes "compute_rle cfg e util temp pw dt = Some (r, e')"
  shows "util_hist e' = util_hist e @ [max 0 (min 100 util)]"
    and "temp_hist e' = (case temp of None \<Rightarrow> temp_hist e | Some t \<Rightarrow> temp_hist e @ [t])"
    and "rle_hist e' = rle_hist e @ [rle_raw r]"
    and "rle_hist_ms e' = rle_hist_ms e @ [rle_raw_ms r]"
    and "rle_hist_uni e' = rle_hist_uni e @ [rle_raw_uni r]"
    and "buf_dt e' = rb_push (buf_dt e) dt"
    and "buf_rle_sm e' =
          (if enable_theta_clock cfg then rb_push (buf_rle_sm e) (rle_smoothed r) else buf_rle_sm e)"
    and "buf_temp e' =
          (if enable_theta_clock cfg
           then (case temp of None \<Rightarrow> buf_temp e | Some t \<Rightarrow> rb_push (buf_temp e) t)
           else buf_temp e)"
proof -
  from compute_rle_stages [OF assms] obtain c e1 q n_smooth e2 e3 dtheta e4 w where
    cc: "compute_components cfg e util temp pw dt = Some (c, e1)" and
    sm: "smooth_rle cfg e1 (rle_raw r) n_smooth = Some (rle_smoothed r, e2)" and
    tu: "theta_update_if_needed cfg e2 (rle_smoothed r) temp dt = Some e3" and
    ta: "theta_advance cfg e3 dt = Some (dtheta, theta_gap r, e4)" and
    dc: "detect_collapse cfg
      (e4\<lparr>rle_hist_ms := rle_hist_ms e4 @ [rle_raw_ms r],
          rle_hist_uni := rle_hist_uni e4 @ [rle_raw_uni r]\<rparr>)
      (rle_smoothed r) util (a_load_c c) temp (t_sustain c) = Some (collapse r, e')"
    by blast
  note e1 = compute_components_engine [OF cc]
  note e2 = smooth_rle_engine [OF sm]
  from theta_update_engine [OF tu] obtain since t0 where e3: "e3 = e2\<lparr>
      buf_rle_sm := (if enable_theta_clock cfg then rb_push (buf_rle_sm e2) (rle_smoothed r)
                     else buf_rle_sm e2),
      buf_temp := (if enable_theta_clock cfg
                   then (case temp of None \<Rightarrow> buf_temp e2 | Some t \<Rightarrow> rb_push (buf_temp e2) t)
                   else buf_temp e2),
      buf_dt := rb_push (buf_dt e2) dt,
      since_theta_update_s := since, t0_s := t0\<rparr>"
    by blast
  from theta_advance_engine [OF ta] obtain tc ti where e4: "e4 = e3\<lparr>theta_c := tc, theta_idx := ti\<rparr>"
    by blast
  from detect_collapse_engine [OF dc] obtain p k where
    e': "e' = e4\<lparr>rle_hist_ms := rle_hist_ms e4 @ [rle_raw_ms r],
          rle_hist_uni := rle_hist_uni e4 @ [rle_raw_uni r], peak := p, below_ctr := k\<rparr>"
    by blast
  show "util_hist e' = util_hist e @ [max 0 (min 100 util)]"
    by (simp add: e' e4 e3 e2 e1)
  show "temp_hist e' = (case temp of None \<Rightarrow> temp_hist e | Some t \<Rightarrow> temp_hist e @ [t])"
    by (simp add: e' e4 e3 e2 e1)
  show "rle_hist e' = rle_hist e @ [rle_raw r]"
    by (simp add: e' e4 e3 e2 e1)
  show "rle_hist_ms e' = rle_hist_ms e @ [rle_raw_ms r]"
    by (simp add: e' e4 e3 e2 e1)
  show "rle_hist_uni e' = rle_hist_uni e @ [rle_raw_uni r]"
    by (simp add: e' e4 e3 e2 e1)
  show "buf_dt e' = rb_push (buf_dt e) dt"
    by (simp add: e' e4 e3 e2 e1)
  show "buf_rle_sm e' =
          (if enable_theta_clock cfg then rb_push (buf_rle_sm e) (rle_smoothed r) else buf_rle_sm e)"
    by (simp add: e' e4 e3 e2 e1)
  show "buf_temp e' =
          (if enable_theta_clock cfg
           then (case temp of None \<Rightarrow> buf_temp e | Some t \<Rightarrow> rb_push (buf_temp e) t)
           else buf_temp e)"
    by (cases temp) (simp_all add: e' e4 e3 e2 e1)
qed


section \<open>Runs\<close>

lemma run_rle_Cons:
  assumes "run_rle cfg e (s # ss) = Some out"
  obtains r e' rest where
    "compute_rle cfg e (util_pct s) (temp_c s) (power_w s) (dt_s s) = Some (r, e')"
    "run_rle cfg e' ss = Some rest" "out = (r, e') # rest"
  using assms by (auto simp: bind_eq_Some_conv)

lemma run_rle_length: "run_rle cfg e ss = Some out \<Longrightarrow> length out = length ss"
proof (induction ss arbitrary: e out)
  case Nil
  then show ?case by simp
next
  case (Cons s ss)
  from Cons.prems obtain r e' rest where
    "run_rle cfg e' ss = Some rest" "out = (r, e') # rest"
    by (rule run_rle_Cons)
  with Cons.IH show ?case by simp
qed

lemma run_rle_step:
  assumes "run_rle cfg e ss = Some out" and "i < length out"
  shows "compute_rle cfg (if i = 0 then e else snd (out ! (i - 1)))
           (util_pct (ss ! i)) (temp_c (ss ! i)) (power_w (ss ! i)) (dt_s (ss ! i))
         = Some (out ! i)"
  using assms
proof (induction ss arbitrary: e out i)
  case Nil
  then show ?case by simp
next
  case (Cons s ss)
  from Cons.prems(1) obtain r e' rest where
    step: "compute_rle cfg e (util_pct s) (temp_c s) (power_w s) (dt_s s) = Some (r, e')" and
    rest: "run_rle cfg e' ss = Some rest" and out: "out = (r, e') # rest"
    by (rule run_rle_Cons)
  show ?case
  proof (cases i)
    case 0
    with step show ?thesis by (simp add: out)
  next
    case (Suc j)
    from Cons.prems(2) have j: "j < length rest" by (simp add: out Suc)
    from Cons.IH [OF rest j] show ?thesis
      by (cases j) (simp_all add: out Suc)
  qed
qed


text \<open>The idle sample on a fresh default engine, evaluated.\<close>

lemma idle_run:
  "run_rle (init_config default_config) init_engine [idle_sample] =
   Some [(\<lparr>rle_raw = 300 / 601, rle_smoothed = 300 / 601, e_th = 600 / 601,
            e_pw = 1 / 2, rle_norm = 50250 / 65509, stability = 1,
            a_load = 1 / 10, t_sustain_s = 600, rolling_peak = 0, collapse = 0,
            alerts = [], F_mu = 1, F_q = 1, F_s = 1, F_p = 1,
            rle_raw_ms = 300 / 601, rle_smoothed_ms = 300 / 601,
            rle_norm_ms = 50250 / 65509, rle_raw_uni = 300 / 601,
            rle_smoothed_uni = 300 / 601, rle_norm_uni = 50250 / 65509, T0_s = 60,
            theta_index = 1 / 60, T_sustain_hat = 10, theta_gap = 0, Gamma = 0,
            log_Gamma = 0\<rparr>,
          \<lparr>util_hist = [5], temp_hist = [40], rle_hist = [300 / 601],
            rle_hist_ms = [300 / 601], rle_hist_uni = [300 / 601], peak = 0,
            below_ctr = 0, t0_s = 60, theta_idx = 1 / 60, theta_c = 0,
            since_theta_update_s = 1, buf_rle_sm = [300 / 601], buf_temp = [40],
            buf_dt = [1]\<rparr>)]"
  by (simp add: idle_sample_def compute_rle_def compute_components_def compute_t_sustain_def
      rolling_stdev_def rolling_mean_def smooth_rle_def theta_update_if_needed_def
      theta_advance_def compute_micro_scale_factor_def w_from_fmu_def normalize_rle_def
      detect_collapse_def rb_push_def rb_len_def smooth_window_n_def py_div_def py_idx_def
      init_config_def default_config_def init_engine_def Let_def)

lemma idle_step:
  "\<exists>r e'. compute_rle (init_config default_config) init_engine 5 (Some 40) (Some 10) 1
            = Some (r, e')"
  using idle_run by (auto simp: idle_sample_def bind_eq_Some_conv)

section \<open>Control decisions\<close>

text \<open>
  Claim C3, as stated, fails: the state is not a function of \<open>min(current, predicted)\<close>.
  The calls (0.15, 0.9) and (0.9, 0.15) have the same minimum, and the source answers
  emergency to the first and aggressive to the second, because it compares the current
  score with 0.2, 0.4, 0.6 and the predicted score with 0.1, 0.3, 0.5.
\<close>

theorem control_decision_counterexample:
  "min 0.15 0.9 = min 0.9 (0.15::real) \<and>
   state (fst (control_decision init_engine 0.15 (Some 0.9) None))
     \<noteq> state (fst (control_decision init_engine 0.9 (Some 0.15) None))"
  by (simp add: control_decision_def)


text \<open>
  Claim C3, amended: \<open>control_decision\<close> leaves the engine as it is and its answer does
  not depend on the engine; with the predicted score defaulting to the current one, the
  state is the more severe (in the order emergency, aggressive, moderate, maintain) of
  the state of the current score under the thresholds 0.2, 0.4, 0.6 and the state of the
  predicted score under the thresholds 0.1, 0.3, 0.5. Without a predicted score it is
  the state of the current score under 0.2, 0.4, 0.6.
\<close>

theorem control_decision_amended:
  "snd (control_decision e cur pred headroom) = e \<and>
   fst (control_decision e cur pred headroom) = fst (control_decision e' cur pred headroom) \<and>
   state (fst (control_decision e cur pred headroom)) =
     state_name (min (level 0.2 0.4 0.6 cur)
                     (level 0.1 0.3 0.5 (case pred of None \<Rightarrow> cur | Some p \<Rightarrow> p))) \<and>
   state (fst (control_decision e cur None headroom)) = state_name (level 0.2 0.4 0.6 cur)"
  by (cases pred) (simp_all add: control_decision_def level_def state_name_def Let_def)

theorem control_decision_amended_witness:
  "state (fst (control_decision init_engine 0.9 (Some 0.15) None)) = ''aggressive'' \<and>
   snd (control_decision init_engine 0.9 (Some 0.15) None) = init_engine"
  using control_decision_amended [of init_engine "0.9" "Some 0.15" None init_engine]
  by (simp add: level_def state_name_def)


section \<open>Normalisation anchors\<close>

lemma cpu_anchor: "(if ''cpu'' = ''cpu'' then (a::real \<times> real \<times> real) else b) = a"
  by simp

lemma if_Some: "(if c then Some a else Some b) = Some (if c then a else b)"
  by simp

lemma normalize_rle_cpu:
  "normalize_rle rle util None = Some (normalize_with 0.3 5 67 rle util)"
proof -
  have d1: "py_div a 67 = Some (a / 67)" for a by (simp add: py_div_def)
  have d2: "py_div a (100 - 67) = Some (a / (100 - 67))" for a by (simp add: py_div_def)
  have eps: "(0::real) < 0.000001" by simp
  show ?thesis
    unfolding normalize_rle_def normalize_with_def Let_def option.case cpu_anchor prod.case
    by (simp only: d1 d2 py_div_max [OF eps] bind.bind_lunit if_Some)
qed


text \<open>
  Claim C10: the three normalised scores of every result of \<open>compute_rle\<close> are computed
  with the CPU anchors (baseline 0.3, optimal 5.0, peak load 67): \<open>compute_rle\<close> calls
  \<open>normalize_rle\<close> without a device type, so the other anchors are never used.
\<close>

theorem compute_rle_cpu_anchors:
  assumes "compute_rle cfg e util temp pw dt = Some (r, e')"
  shows "rle_norm r = normalize_with 0.3 5 67 (rle_smoothed r) util \<and>
         rle_norm_ms r = normalize_with 0.3 5 67 (rle_smoothed_ms r) util \<and>
         rle_norm_uni r = normalize_with 0.3 5 67 (rle_smoothed_uni r) util"
proof -
  from compute_rle_stages [OF assms] have
    "normalize_rle (rle_smoothed r) util None = Some (rle_norm r)"
    "normalize_rle (rle_smoothed_ms r) util None = Some (rle_norm_ms r)"
    "normalize_rle (rle_smoothed_uni r) util None = Some (rle_norm_uni r)"
    by blast+
  then show ?thesis by (simp add: normalize_rle_cpu)
qed


theorem compute_rle_cpu_anchors_witness:
  "\<exists>r e'. compute_rle (init_config default_config) init_engine 5 (Some 40) (Some 10) 1
            = Some (r, e')
          \<and> rle_norm r = normalize_with 0.3 5 67 (rle_smoothed r) 5
          \<and> rle_norm_ms r = normalize_with 0.3 5 67 (rle_smoothed_ms r) 5
          \<and> rle_norm_uni r = normalize_with 0.3 5 67 (rle_smoothed_uni r) 5"
proof -
  from idle_step obtain r e' where
    step: "compute_rle (init_config default_config) init_engine 5 (Some 40) (Some 10) 1
            = Some (r, e')"
    by blast
  from compute_rle_cpu_anchors [OF step] step show ?thesis by blast
qed

section \<open>Warm-up\<close>

lemma detect_collapse_warmup:
  assumes "detect_collapse cfg e sm util al temp t = Some (flag, e')"
    and "int (length (rle_hist e)) < max (smooth_n cfg) 5"
  shows "flag = 0 \<and> peak e' = 0 \<and> below_ctr e' = 0"
proof -
  from assms(2) have nw: "\<not> (max (smooth_n cfg) 5 \<le> int (length (rle_hist e)))"
    by linarith
  from assms(1) have "Some (0, e\<lparr>peak := 0, below_ctr := 0\<rparr>) = Some (flag, e')"
    unfolding detect_collapse_def Let_def
    by (simp only: nw not_False_eq_True if_True)
  then show ?thesis by auto
qed

lemma compute_rle_warmup:
  assumes step: "compute_rle cfg e util temp pw dt = Some (r, e')"
    and cold: "int (length (rle_hist e)) + 1 < max (smooth_n cfg) 5"
  shows "collapse r = 0 \<and> rolling_peak r = 0 \<and> below_ctr e' = 0"
proof -
  from compute_rle_stages [OF step] obtain c e1 n_smooth e2 e3 dtheta e4 where
    cc: "compute_components cfg e util temp pw dt = Some (c, e1)" and
    sm: "smooth_rle cfg e1 (rle_raw r) n_smooth = Some (rle_smoothed r, e2)" and
    tu: "theta_update_if_needed cfg e2 (rle_smoothed r) temp dt = Some e3" and
    ta: "theta_advance cfg e3 dt = Some (dtheta, theta_gap r, e4)" and
    dc: "detect_collapse cfg
      (e4\<lparr>rle_hist_ms := rle_hist_ms e4 @ [rle_raw_ms r],
          rle_hist_uni := rle_hist_uni e4 @ [rle_raw_uni r]\<rparr>)
      (rle_smoothed r) util (a_load_c c) temp (t_sustain c) = Some (collapse r, e')" and
    pk: "rolling_peak r = peak e'"
    by blast
  note e1 = compute_components_engine [OF cc]
  note e2 = smooth_rle_engine [OF sm]
  from theta_update_engine [OF tu] obtain since t0 where e3: "e3 = e2\<lparr>
      buf_rle_sm := (if enable_theta_clock cfg then rb_push (buf_rle_sm e2) (rle_smoothed r)
                     else buf_rle_sm e2),
      buf_temp := (if enable_theta_clock cfg
                   then (case temp of None \<Rightarrow> buf_temp e2 | Some t \<Rightarrow> rb_push (buf_temp e2) t)
                   else buf_temp e2),
      buf_dt := rb_push (buf_dt e2) dt,
      since_theta_update_s := since, t0_s := t0\<rparr>"
    by blast
  from theta_advance_engine [OF ta] obtain tc ti where e4: "e4 = e3\<lparr>theta_c := tc, theta_idx := ti\<rparr>"
    by blast
  have "rle_hist (e4\<lparr>rle_hist_ms := rle_hist_ms e4 @ [rle_raw_ms r],
          rle_hist_uni := rle_hist_uni e4 @ [rle_raw_uni r]\<rparr>) = rle_hist e @ [rle_raw r]"
    by (simp add: e4 e3 e2 e1)
  with cold have "int (length (rle_hist (e4\<lparr>rle_hist_ms := rle_hist_ms e4 @ [rle_raw_ms r],
          rle_hist_uni := rle_hist_uni e4 @ [rle_raw_uni r]\<rparr>))) < max (smooth_n cfg) 5"
    by simp
  from detect_collapse_warmup [OF dc this] pk show ?thesis by simp
qed

lemma run_rle_warmup:
  assumes "run_rle cfg e ss = Some out" and "i < length out"
    and "int (length (rle_hist e)) + int i + 1 < max (smooth_n cfg) 5"
  shows "collapse (fst (out ! i)) = 0 \<and> rolling_peak (fst (out ! i)) = 0
         \<and> below_ctr (snd (out ! i)) = 0"
  using assms
proof (induction ss arbitrary: e out i)
  case Nil
  then show ?case by simp
next
  case (Cons s ss)
  from Cons.prems(1) obtain r e' rest where
    step: "compute_rle cfg e (util_pct s) (temp_c s) (power_w s) (dt_s s) = Some (r, e')" and
    rest: "run_rle cfg e' ss = Some rest" and out: "out = (r, e') # rest"
    by (rule run_rle_Cons)
  show ?case
  proof (cases i)
    case 0
    with Cons.prems(3) have "int (length (rle_hist e)) + 1 < max (smooth_n cfg) 5" by simp
    from compute_rle_warmup [OF step this] show ?thesis by (simp add: out 0)
  next
    case (Suc j)
    have len: "length (rle_hist e') = length (rle_hist e) + 1"
      by (simp add: compute_rle_frame(3) [OF step])
    from Cons.prems(2) have j: "j < length rest" by (simp add: out Suc)
    from Cons.prems(3) have "int (length (rle_hist e')) + int j + 1 < max (smooth_n cfg) 5"
      by (simp add: len Suc)
    from Cons.IH [OF rest j this] show ?thesis by (simp add: out Suc)
  qed
qed


text \<open>
  Claim C5: for every configuration and every sample sequence fed to a fresh engine,
  each of the first \<open>max(smooth_n, 5) - 1\<close> calls that returns reports \<open>collapse = 0\<close> and
  \<open>rolling_peak = 0\<close>, and leaves the counter \<open>below_ctr\<close> at 0.
\<close>

theorem warmup_reports_no_collapse:
  assumes "run_rle (init_config a) init_engine ss = Some out" and "i < length out"
    and "int i < max (smooth_n a) 5 - 1"
  shows "collapse (fst (out ! i)) = 0 \<and> rolling_peak (fst (out ! i)) = 0
         \<and> below_ctr (snd (out ! i)) = 0"
proof -
  have "max (smooth_n (init_config a)) 5 = max (smooth_n a) 5"
    by (simp add: init_config_def)
  with assms(3) have "int (length (rle_hist init_engine)) + int i + 1
      < max (smooth_n (init_config a)) 5"
    by (simp add: init_engine_def)
  from run_rle_warmup [OF assms(1,2) this] show ?thesis .
qed


theorem warmup_reports_no_collapse_witness:
  "\<exists>out. run_rle (init_config default_config) init_engine [idle_sample] = Some out
         \<and> 0 < length out \<and> int 0 < max (smooth_n default_config) 5 - 1
         \<and> collapse (fst (out ! 0)) = 0 \<and> rolling_peak (fst (out ! 0)) = 0
         \<and> below_ctr (snd (out ! 0)) = 0"
proof -
  obtain out where run: "run_rle (init_config default_config) init_engine [idle_sample] = Some out"
    using idle_run by blast
  have len: "0 < length out" using run_rle_length [OF run] by simp
  have early: "int 0 < max (smooth_n default_config) 5 - 1" by (simp add: default_config_def)
  from warmup_reports_no_collapse [OF run len early] run len early show ?thesis by blast
qed

section \<open>The collapse gate\<close>

lemma theta_window_to_n_ge3:
  assumes "theta_window_to_n cfg e w = Some n"
  shows "3 \<le> n"
proof -
  from assms obtain a b :: int where "n = min (max 3 a) (max 12 b)"
    unfolding theta_window_to_n_def Let_def by (auto simp: bind_eq_Some_conv)
  then show ?thesis by linarith
qed

lemma detect_collapse_gate_closed:
  assumes dc: "detect_collapse cfg e sm util al temp t = Some (flag, e')"
    and gate: "util \<le> util_gate_pct cfg" "al \<le> a_load_gate cfg"
    and hyst: "0 < hysteresis_s cfg"
  shows "flag = 0 \<and> below_ctr e' = 0"
proof (cases "max (smooth_n cfg) 5 \<le> int (length (rle_hist e))")
  case False
  then have "int (length (rle_hist e)) < max (smooth_n cfg) 5" by linarith
  from detect_collapse_warmup [OF dc this] show ?thesis by simp
next
  case True
  from gate have ul: "\<not> (util_gate_pct cfg < util \<or> a_load_gate cfg < al)" by auto
  define e1 where "e1 = e\<lparr>peak := max sm (peak e * rolling_decay cfg)\<rparr>"
  from dc obtain hs where
    hs: "(case hysteresis_theta cfg of None \<Rightarrow> Some (hysteresis_s cfg)
          | Some h \<Rightarrow>
              if enable_theta_clock cfg \<and> use_theta_windows cfg \<and> h \<noteq> 0 \<and> h > 0
              then map_option (max 1) (theta_window_to_n cfg (e1\<lparr>below_ctr := 0\<rparr>) h)
              else Some (hysteresis_s cfg)) = Some hs"
    and res: "flag = (if 0 \<ge> hs \<and> ((t < 60 \<or> (case temp of None \<Rightarrow> False
                 | Some t' \<Rightarrow> t' > temp_limit_c cfg - 5)) \<or> al > 0.95) then 1 else 0)"
             "e' = e1\<lparr>below_ctr := 0\<rparr>"
    unfolding detect_collapse_def Let_def e1_def
    by (simp only: True ul not_True_eq_False if_False simp_thms)
       (auto simp: bind_eq_Some_conv)
  from hs hyst have "0 < hs"
    by (auto split: option.splits if_splits)
  with res show ?thesis by simp
qed


lemma compute_rle_gate_closed:
  assumes step: "compute_rle cfg e util temp pw dt = Some (r, e')"
    and gate: "util \<le> util_gate_pct cfg" "a_load r \<le> a_load_gate cfg"
    and hyst: "0 < hysteresis_s cfg"
  shows "collapse r = 0 \<and> below_ctr e' = 0"
proof -
  from compute_rle_stages [OF step] obtain c :: components and e4 where
    dc: "detect_collapse cfg
      (e4\<lparr>rle_hist_ms := rle_hist_ms e4 @ [rle_raw_ms r],
          rle_hist_uni := rle_hist_uni e4 @ [rle_raw_uni r]\<rparr>)
      (rle_smoothed r) util (a_load_c c) temp (t_sustain c) = Some (collapse r, e')" and
    al: "a_load r = a_load_c c"
    by blast
  from gate(2) al have "a_load_c c \<le> a_load_gate cfg" by simp
  from detect_collapse_gate_closed [OF dc gate(1) this hyst] show ?thesis .
qed


section \<open>Micro-scale correction disabled\<close>

lemma smooth_rle_mean:
  assumes "smooth_rle cfg e raw n_smooth = Some (sm, e2)"
  shows "rolling_mean (rle_hist e @ [raw])
           (case n_smooth of None \<Rightarrow> smooth_n cfg
            | Some m \<Rightarrow> if m > 0 then m else smooth_n cfg) = Some sm"
  using assms unfolding smooth_rle_def Let_def by auto

lemma smooth_window_n_ge3:
  assumes "smooth_window_n cfg e = Some (Some m)"
  shows "3 \<le> m"
  using assms unfolding smooth_window_n_def
  by (auto split: option.splits if_splits dest: theta_window_to_n_ge3)

lemma window_choice_agree:
  assumes "smooth_window_n cfg e = Some n_smooth"
  shows "(case n_smooth of None \<Rightarrow> smooth_n cfg | Some m \<Rightarrow> if m \<noteq> 0 then m else smooth_n cfg)
       = (case n_smooth of None \<Rightarrow> smooth_n cfg | Some m \<Rightarrow> if m > 0 then m else smooth_n cfg)"
proof (cases n_smooth)
  case None
  then show ?thesis by simp
next
  case (Some m)
  with assms have "3 \<le> m" by (simp add: smooth_window_n_ge3)
  with Some show ?thesis by simp
qed

lemma compute_rle_micro_disabled:
  assumes step: "compute_rle cfg e util temp pw dt = Some (r, e')"
    and off: "\<not> enable_micro_scale cfg"
    and inv: "rle_hist_ms e = rle_hist e" "rle_hist_uni e = rle_hist e"
  shows "F_mu r = 1" "F_q r = 1" "F_s r = 1" "F_p r = 1"
    "rle_raw_ms r = rle_raw r" "rle_smoothed_ms r = rle_smoothed r" "rle_norm_ms r = rle_norm r"
    "rle_raw_uni r = rle_raw r" "rle_smoothed_uni r = rle_smoothed r" "rle_norm_uni r = rle_norm r"
    "rle_hist_ms e' = rle_hist e'" "rle_hist_uni e' = rle_hist e'"
proof -
  from compute_rle_stages [OF step] obtain c e1 n_smooth e2 e3 dtheta e4 w where
    cc: "compute_components cfg e util temp pw dt = Some (c, e1)" and
    sw: "smooth_window_n cfg e1 = Some n_smooth" and
    sm: "smooth_rle cfg e1 (rle_raw r) n_smooth = Some (rle_smoothed r, e2)" and
    tu: "theta_update_if_needed cfg e2 (rle_smoothed r) temp dt = Some e3" and
    ta: "theta_advance cfg e3 dt = Some (dtheta, theta_gap r, e4)" and
    mf: "compute_micro_scale_factor cfg e4 pw temp dt dtheta (t0_s e4)
      = Some (F_mu r, F_q r, F_s r, F_p r, Gamma r, log_Gamma r)" and
    raw_ms: "rle_raw_ms r = rle_raw r * F_mu r" and
    sm_ms: "rolling_mean (rle_hist_ms e4 @ [rle_raw_ms r])
      (case n_smooth of None \<Rightarrow> smooth_n cfg | Some m \<Rightarrow> if m \<noteq> 0 then m else smooth_n cfg)
      = Some (rle_smoothed_ms r)" and
    w: "w_from_fmu (F_mu r) = Some w" and
    raw_uni: "rle_raw_uni r = rle_raw r * (1 - w) + rle_raw_ms r * w" and
    sm_uni: "rolling_mean (rle_hist_uni e4 @ [rle_raw_uni r])
      (case n_smooth of None \<Rightarrow> smooth_n cfg | Some m \<Rightarrow> if m \<noteq> 0 then m else smooth_n cfg)
      = Some (rle_smoothed_uni r)" and
    n1: "normalize_rle (rle_smoothed r) util None = Some (rle_norm r)" and
    n2: "normalize_rle (rle_smoothed_ms r) util None = Some (rle_norm_ms r)" and
    n3: "normalize_rle (rle_smoothed_uni r) util None = Some (rle_norm_uni r)"
    by blast
  from mf off show F: "F_mu r = 1" "F_q r = 1" "F_s r = 1" "F_p r = 1"
    by (simp_all add: compute_micro_scale_factor_def)
  from w F(1) have w0: "w = 0" by (simp add: w_from_fmu_def)
  from raw_ms F(1) show raw1: "rle_raw_ms r = rle_raw r" by simp
  from raw_uni w0 show raw2: "rle_raw_uni r = rle_raw r" by simp
  note e1 = compute_components_engine [OF cc]
  note e2 = smooth_rle_engine [OF sm]
  from theta_update_engine [OF tu] obtain since t0 where e3: "e3 = e2\<lparr>
      buf_rle_sm := (if enable_theta_clock cfg then rb_push (buf_rle_sm e2) (rle_smoothed r)
                     else buf_rle_sm e2),
      buf_temp := (if enable_theta_clock cfg
                   then (case temp of None \<Rightarrow> buf_temp e2 | Some t \<Rightarrow> rb_push (buf_temp e2) t)
                   else buf_temp e2),
      buf_dt := rb_push (buf_dt e2) dt,
      since_theta_update_s := since, t0_s := t0\<rparr>"
    by blast
  from theta_advance_engine [OF ta] obtain tc ti where e4: "e4 = e3\<lparr>theta_c := tc, theta_idx := ti\<rparr>"
    by blast
  have h1: "rle_hist e1 = rle_hist e" by (simp add: e1)
  have h4: "rle_hist_ms e4 = rle_hist e" "rle_hist_uni e4 = rle_hist e"
    by (simp_all add: e4 e3 e2 e1 inv)
  from smooth_rle_mean [OF sm] have core: "rolling_mean (rle_hist e @ [rle_raw r])
      (case n_smooth of None \<Rightarrow> smooth_n cfg | Some m \<Rightarrow> if m \<noteq> 0 then m else smooth_n cfg)
      = Some (rle_smoothed r)"
    by (simp only: h1 window_choice_agree [OF sw])
  from sm_ms core show s1: "rle_smoothed_ms r = rle_smoothed r"
    by (simp only: h4 raw1) simp
  from sm_uni core show s2: "rle_smoothed_uni r = rle_smoothed r"
    by (simp only: h4 raw2) simp
  from n1 n2 show "rle_norm_ms r = rle_norm r" by (simp only: s1) simp
  from n1 n3 show "rle_norm_uni r = rle_norm r" by (simp only: s2) simp
  show "rle_hist_ms e' = rle_hist e'"
    by (simp add: compute_rle_frame(3,4) [OF step] inv raw1)
  show "rle_hist_uni e' = rle_hist e'"
    by (simp add: compute_rle_frame(3,5) [OF step] inv raw2)
qed

lemma run_rle_micro_disabled:
  assumes "run_rle cfg e ss = Some out" and "i < length out"
    and "\<not> enable_micro_scale cfg"
    and "rle_hist_ms e = rle_hist e" "rle_hist_uni e = rle_hist e"
  shows "F_mu (fst (out ! i)) = 1 \<and> F_q (fst (out ! i)) = 1 \<and> F_s (fst (out ! i)) = 1
       \<and> F_p (fst (out ! i)) = 1
       \<and> rle_raw_ms (fst (out ! i)) = rle_raw (fst (out ! i))
       \<and> rle_smoothed_ms (fst (out ! i)) = rle_smoothed (fst (out ! i))
       \<and> rle_norm_ms (fst (out ! i)) = rle_norm (fst (out ! i))
       \<and> rle_raw_uni (fst (out ! i)) = rle_raw (fst (out ! i))
       \<and> rle_smoothed_uni (fst (out ! i)) = rle_smoothed (fst (out ! i))
       \<and> rle_norm_uni (fst (out ! i)) = rle_norm (fst (out ! i))"
  using assms
proof (induction ss arbitrary: e out i)
  case Nil
  then show ?case by simp
next
  case (Cons s ss)
  from Cons.prems(1) obtain r e' rest where
    step: "compute_rle cfg e (util_pct s) (temp_c s) (power_w s) (dt_s s) = Some (r, e')" and
    rest: "run_rle cfg e' ss = Some rest" and out: "out = (r, e') # rest"
    by (rule run_rle_Cons)
  note facts = compute_rle_micro_disabled [OF step Cons.prems(3,4,5)]
  show ?case
  proof (cases i)
    case 0
    with facts show ?thesis by (simp add: out)
  next
    case (Suc j)
    from Cons.prems(2) have j: "j < length rest" by (simp add: out Suc)
    from Cons.IH [OF rest j Cons.prems(3) facts(11,12)] show ?thesis
      by (simp add: out Suc)
  qed
qed


text \<open>
  Claim C2: with \<open>enable_micro_scale = False\<close>, every result of a run on a fresh engine has
  \<open>F_mu = F_q = F_s = F_p = 1\<close>, and its corrected (\<open>_ms\<close>) and blended (\<open>_uni\<close>) raw,
  smoothed and normalised scores equal the core ones. (Floats are real numbers here;
  the equalities are exact.)
\<close>

theorem micro_scale_disabled_identity:
  assumes "\<not> enable_micro_scale a"
    and "run_rle (init_config a) init_engine ss = Some out" and "i < length out"
  shows "F_mu (fst (out ! i)) = 1 \<and> F_q (fst (out ! i)) = 1 \<and> F_s (fst (out ! i)) = 1
       \<and> F_p (fst (out ! i)) = 1
       \<and> rle_raw_ms (fst (out ! i)) = rle_raw (fst (out ! i))
       \<and> rle_smoothed_ms (fst (out ! i)) = rle_smoothed (fst (out ! i))
       \<and> rle_norm_ms (fst (out ! i)) = rle_norm (fst (out ! i))
       \<and> rle_raw_uni (fst (out ! i)) = rle_raw (fst (out ! i))
       \<and> rle_smoothed_uni (fst (out ! i)) = rle_smoothed (fst (out ! i))
       \<and> rle_norm_uni (fst (out ! i)) = rle_norm (fst (out ! i))"
proof -
  have off: "\<not> enable_micro_scale (init_config a)"
    using assms(1) by (simp add: init_config_def)
  have "rle_hist_ms init_engine = rle_hist init_engine"
    "rle_hist_uni init_engine = rle_hist init_engine"
    by (simp_all add: init_engine_def)
  from run_rle_micro_disabled [OF assms(2,3) off this] show ?thesis .
qed


theorem micro_scale_disabled_identity_witness:
  "\<exists>out. \<not> enable_micro_scale default_config
         \<and> run_rle (init_config default_config) init_engine [idle_sample] = Some out
         \<and> 0 < length out
         \<and> F_mu (fst (out ! 0)) = 1
         \<and> rle_smoothed_ms (fst (out ! 0)) = rle_smoothed (fst (out ! 0))
         \<and> rle_norm_uni (fst (out ! 0)) = rle_norm (fst (out ! 0))"
proof -
  obtain out where run: "run_rle (init_config default_config) init_engine [idle_sample] = Some out"
    using idle_run by blast
  have len: "0 < length out" using run_rle_length [OF run] by simp
  have off: "\<not> enable_micro_scale default_config" by (simp add: default_config_def)
  from micro_scale_disabled_identity [OF off run len] run len off show ?thesis by blast
qed

section \<open>No call raises\<close>

text \<open>
  Every stage of \<open>compute_rle\<close> returns: each divisor is a \<open>max\<close> with a positive
  constant, a non-zero literal, the length of a list that was just appended to, or a sum
  that is positive for other reasons, and the two fractional powers have a non-negative
  base. The only facts that need the history of the engine are those of the period
  re-estimation, which takes the square root of \<open>T_peak * tau_eff\<close>, where \<open>T_peak\<close> is a
  positive lag times the mean sampling interval of the ring buffer.
\<close>

subsection \<open>Windows, components, smoothing, collapse detection\<close>

lemma eps6: "(0::real) < 0.000001" by simp
lemma eps3: "(0::real) < 0.001" by simp

lemma py_idx_mid:
  assumes "xs \<noteq> []"
  shows "\<exists>x. py_idx xs (int (length xs) div 2) = Some x"
proof -
  from assms have "0 < int (length xs)" by simp
  then have "0 \<le> int (length xs) div 2" "int (length xs) div 2 < int (length xs)"
    by linarith+
  then show ?thesis by (simp add: py_idx_def Let_def)
qed

lemma rolling_mean_total:
  assumes "0 < n"
  shows "\<exists>m. rolling_mean data n = Some m"
proof (cases "data = []")
  case True
  then show ?thesis by (simp add: rolling_mean_def)
next
  case False
  then have len: "real (length data) \<noteq> 0" by simp
  from assms have n: "real_of_int n \<noteq> 0" by simp
  show ?thesis
    using False by (simp add: rolling_mean_def py_div_nz [OF len] py_div_nz [OF n])
qed

lemma pstdev_total:
  assumes "xs \<noteq> []"
  shows "\<exists>s. pstdev xs = Some s \<and> 0 \<le> s"
proof -
  have "0 \<le> sum_list (map (\<lambda>x. (x - m) * (x - m)) xs)" for m :: real
    by (rule sum_list_nonneg) auto
  then have "0 \<le> sum_list (map (\<lambda>x. (x - m) * (x - m)) xs) / real (length xs)" for m :: real
    by (rule divide_nonneg_nonneg) simp
  then show ?thesis
    using assms by (simp add: pstdev_def Let_def)
qed

lemma rolling_stdev_total:
  assumes "0 < n"
  shows "\<exists>s. rolling_stdev data n = Some s \<and> 0 \<le> s"
proof (cases "length data < 2")
  case True
  then show ?thesis by (simp add: rolling_stdev_def)
next
  case False
  have "(if n \<le> int (length data) then py_slice_from data (- n) else data) \<noteq> []"
    using False assms by (auto simp: py_slice_from_def)
  from pstdev_total [OF this] show ?thesis
    using False by (simp add: rolling_stdev_def)
qed

lemma compute_t_sustain_total: "\<exists>t. compute_t_sustain limit hist dt mx = Some t"
proof (cases "length hist < 2")
  case True
  then show ?thesis by (simp add: compute_t_sustain_def)
next
  case False
  then have len: "2 \<le> length hist" and ne: "hist \<noteq> []" by auto
  show ?thesis
    using False
    by (simp add: compute_t_sustain_def py_idx_last [OF ne] py_idx_last2 [OF len]
        py_div_max Let_def)
qed

lemma mean_dt_total: "\<exists>m. mean_dt e = Some m"
proof (cases "buf_dt e = []")
  case True
  then show ?thesis by (simp add: mean_dt_def)
next
  case False
  then have "real (length (buf_dt e)) \<noteq> 0" by simp
  from py_div_nz [OF this] False show ?thesis by (simp add: mean_dt_def)
qed

lemma stab_window_total:
  assumes "\<not> use_theta_windows cfg"
  shows "\<exists>n. (if enable_theta_clock cfg \<and> use_theta_windows cfg
                    \<and> stability_window_theta cfg \<noteq> 0 \<and> stability_window_theta cfg > 0
         then theta_window_to_n cfg e2 (stability_window_theta cfg) else Some 5) = Some n \<and> 0 < n"
  using assms by simp

lemma compute_components_total:
  assumes tw: "\<not> use_theta_windows cfg"
  shows "\<exists>c e1. compute_components cfg e util temp pw dt = Some (c, e1)"
proof -
  define e2 where "e2 = (case temp of None \<Rightarrow> e\<lparr>util_hist := util_hist e @ [max 0 (min 100 util)]\<rparr>
     | Some t \<Rightarrow> e\<lparr>util_hist := util_hist e @ [max 0 (min 100 util)]\<rparr>
        \<lparr>temp_hist := temp_hist (e\<lparr>util_hist := util_hist e @ [max 0 (min 100 util)]\<rparr>) @ [t]\<rparr>)"
  have ne: "util_hist e2 \<noteq> []" by (simp add: e2_def split: option.split)
  obtain n where n: "(if enable_theta_clock cfg \<and> use_theta_windows cfg
                    \<and> stability_window_theta cfg \<noteq> 0 \<and> stability_window_theta cfg > 0
                 then theta_window_to_n cfg e2 (stability_window_theta cfg) else Some 5) = Some n"
    and npos: "0 < n"
    using stab_window_total [OF tw] by blast
  obtain sd where sd: "rolling_stdev (util_hist e2) n = Some sd" and sd0: "0 \<le> sd"
    using rolling_stdev_total [OF npos] by blast
  from sd0 have "1 + sd \<noteq> 0" by simp
  note d1 = py_div_nz [OF this]
  have d100: "py_div u 100 = Some (u / 100)" for u by (simp add: py_div_def)
  obtain t where t: "compute_t_sustain (temp_limit_c cfg) (temp_hist e2) dt (max_t_sustain_s cfg) = Some t"
    using compute_t_sustain_total by blast
  show ?thesis
    unfolding compute_components_def Let_def e2_def [symmetric]
    by (simp only: ne not_False_eq_True if_True py_idx_last [OF ne] bind.bind_lunit d100 n sd d1
        py_div_max [OF eps6] t) blast
qed

lemma smooth_window_n_total:
  assumes "\<not> use_theta_windows cfg"
  shows "smooth_window_n cfg e = Some None"
  using assms by (cases "smooth_window_theta cfg") (simp_all add: smooth_window_n_def)

lemma smooth_rle_total:
  assumes "0 < smooth_n cfg"
  shows "\<exists>sm e2. smooth_rle cfg e raw n = Some (sm, e2)"
proof -
  have "0 < (case n of None \<Rightarrow> smooth_n cfg | Some m \<Rightarrow> if m > 0 then m else smooth_n cfg)"
    using assms by (simp split: option.split)
  from rolling_mean_total [OF this] show ?thesis
    unfolding smooth_rle_def Let_def by auto
qed

lemma gap_total:
  "\<exists>g. (if buf_dt e \<noteq> [] then do {
            med_dt \<leftarrow> py_idx (sort (buf_dt e)) (int (length (sort (buf_dt e))) div 2);
            Some (if dt > 3 * max med_dt 0.000001 then 1 else 0)
          } else Some (0::int)) = Some g"
proof (cases "buf_dt e = []")
  case True
  then show ?thesis by simp
next
  case False
  then have "sort (buf_dt e) \<noteq> []" by (metis length_0_conv length_sort)
  from py_idx_mid [OF this] obtain x where
    "py_idx (sort (buf_dt e)) (int (length (sort (buf_dt e))) div 2) = Some x" by blast
  then show ?thesis
    by (simp only: False not_False_eq_True if_True Let_def bind.bind_lunit) blast
qed

lemma theta_advance_total: "\<exists>dtheta gap e4. theta_advance cfg e dt = Some (dtheta, gap, e4)"
proof (cases "enable_theta_clock cfg")
  case False
  then show ?thesis by (simp add: theta_advance_def)
next
  case True
  from gap_total obtain g where g: "(if buf_dt e \<noteq> [] then do {
            med_dt \<leftarrow> py_idx (sort (buf_dt e)) (int (length (sort (buf_dt e))) div 2);
            Some (if dt > 3 * max med_dt 0.000001 then 1 else 0)
          } else Some (0::int)) = Some g"
    by blast
  show ?thesis
    unfolding theta_advance_def
    by (simp only: True if_True Let_def g bind.bind_lunit py_div_max [OF eps6]) blast
qed

lemma w_from_fmu_total: "\<exists>w. w_from_fmu f = Some w"
proof -
  have d: "py_div x (0.98 - 0.90) = Some (x / (0.98 - 0.90))" for x
    by (simp add: py_div_def)
  show ?thesis unfolding w_from_fmu_def Let_def
    by (simp only: d bind.bind_lunit if_Some) blast
qed

lemma heating_total:
  "\<exists>h. (if length hist \<ge> 2 \<and> temp \<noteq> None then do {
            t1 \<leftarrow> py_idx hist (- 1);
            t2 \<leftarrow> py_idx hist (- 2);
            Some (t1 - t2 > (0.05::real))
          } else Some False) = Some h"
proof (cases "length hist \<ge> 2 \<and> temp \<noteq> None")
  case True
  then have len: "2 \<le> length hist" and ne: "hist \<noteq> []" by auto
  show ?thesis
    by (simp only: if_P [OF True] py_idx_last [OF ne] py_idx_last2 [OF len] bind.bind_lunit) blast
next
  case False
  show ?thesis by (simp only: if_not_P [OF False]) blast
qed

lemma hysteresis_total:
  assumes "\<not> use_theta_windows cfg"
  shows "\<exists>hs. (case hysteresis_theta cfg of None \<Rightarrow> Some (hysteresis_s cfg)
         | Some h' \<Rightarrow>
             if enable_theta_clock cfg \<and> use_theta_windows cfg \<and> h' \<noteq> 0 \<and> h' > 0
             then map_option (max 1) (theta_window_to_n cfg e2 h')
             else Some (hysteresis_s cfg)) = Some hs"
  using assms by (cases "hysteresis_theta cfg") simp_all

lemma detect_collapse_total:
  assumes tw: "\<not> use_theta_windows cfg"
  shows "\<exists>flag e'. detect_collapse cfg e sm util al temp t = Some (flag, e')"
proof (cases "max (smooth_n cfg) 5 \<le> int (length (rle_hist e))")
  case False
  then show ?thesis unfolding detect_collapse_def Let_def
    by (simp only: not_False_eq_True if_True) blast
next
  case True
  define e1 where "e1 = e\<lparr>peak := max sm (peak e * rolling_decay cfg)\<rparr>"
  from heating_total obtain h where h: "(if length (temp_hist e1) \<ge> 2 \<and> temp \<noteq> None then do {
                          t1 \<leftarrow> py_idx (temp_hist e1) (- 1);
                          t2 \<leftarrow> py_idx (temp_hist e1) (- 2);
                          Some (t1 - t2 > 0.05)
                        } else Some False) = Some h"
    by blast
  define e2 where "e2 = (if ((util > util_gate_pct cfg \<or> al > a_load_gate cfg) \<and> h)
        \<and> sm < drop_frac cfg * max (peak e1) 0.000001
        then e1\<lparr>below_ctr := below_ctr e1 + 1\<rparr> else e1\<lparr>below_ctr := 0\<rparr>)"
  from hysteresis_total [OF tw] obtain hs where hs:
    "(case hysteresis_theta cfg of None \<Rightarrow> Some (hysteresis_s cfg)
         | Some h' \<Rightarrow>
             if enable_theta_clock cfg \<and> use_theta_windows cfg \<and> h' \<noteq> 0 \<and> h' > 0
             then map_option (max 1) (theta_window_to_n cfg e2 h')
             else Some (hysteresis_s cfg)) = Some hs"
    by blast
  show ?thesis
    unfolding detect_collapse_def Let_def e1_def [symmetric]
    by (simp only: True not_True_eq_False if_False h bind.bind_lunit e2_def [symmetric] hs) blast
qed

subsection \<open>The micro-scale factor\<close>

lemma eps9: "(0::real) < 0.000000001" by simp
lemma eps30: "(0::real) < 1 / 10 ^ 30" by simp

lemma py_div_sq: "py_div 1 (1 + q ^ 2) = Some (1 / (1 + q ^ 2))"
proof -
  have "0 < 1 + q ^ 2" by (rule add_pos_nonneg) simp_all
  then show ?thesis by (rule py_div_pos)
qed

lemma py_log_max: "0 < e \<Longrightarrow> py_log (max x e) = Some (ln (max x e))"
  using max_eps_pos [of e x] by (simp add: py_log_def)

lemma py_pow_nonneg: "0 \<le> x \<Longrightarrow> py_pow x y = Some (x powr y)"
  by (simp add: py_pow_def)

lemma Fq_nonneg: "0 \<le> n \<Longrightarrow> 0 \<le> 1 - exp (- (min n (50::real)))"
  by simp

lemma compute_micro_scale_factor_total:
  assumes knee: "enable_micro_scale cfg \<Longrightarrow> 0 \<le> low_power_knee_w cfg"
  shows "\<exists>F. compute_micro_scale_factor cfg e pw temp dt dtheta T0 = Some F"
proof (cases "enable_micro_scale cfg")
  case False
  then show ?thesis by (simp add: compute_micro_scale_factor_def)
next
  case True
  have "\<exists>Tc. (case temp of Some t \<Rightarrow> Some t
                 | None \<Rightarrow> if temp_hist e \<noteq> [] then py_idx (temp_hist e) (- 1) else Some 25)
          = Some Tc"
    by (cases temp; cases "temp_hist e = []") (simp_all add: py_idx_last)
  then obtain Tc where tc: "(case temp of Some t \<Rightarrow> Some t
                 | None \<Rightarrow> if temp_hist e \<noteq> [] then py_idx (temp_hist e) (- 1) else Some 25)
          = Some Tc"
    by blast
  have "\<exists>sg. (if length (temp_hist e) \<ge> 2 then rolling_stdev (temp_hist e) 5
                    else Some 0.000001) = Some sg"
  proof (cases "length (temp_hist e) \<ge> 2")
    case True
    from rolling_stdev_total [of 5 "temp_hist e"] show ?thesis
      by (simp only: if_P [OF True]) auto
  next
    case False
    show ?thesis by (simp only: if_not_P [OF False]) blast
  qed
  then obtain sg where sg: "(if length (temp_hist e) \<ge> 2 then rolling_stdev (temp_hist e) 5
                    else Some 0.000001) = Some sg"
    by blast
  define P where "P = max (case pw of None \<Rightarrow> 0 | Some w \<Rightarrow> if w = 0 then 0 else w) (0.000001::real)"
  define Gam where "Gam = (P * max T0 0.000000001)
      / (max (1380649 / 10 ^ 29 * max (Tc + 273.15) 273.15) (1 / 10 ^ 30))"
  define Fq where "Fq = 1 - exp (- (min (Gam * max dtheta 0) 50))"
  define Fs where "Fs = 1 / (1 + (sensor_temp_lsb_c cfg / max sg 0.000001) ^ 2)"
  define Fp where "Fp = P / (P + low_power_knee_w cfg)"
  have P: "0 < P" unfolding P_def by (rule max_eps_pos) simp
  have "0 < P * max T0 0.000000001"
    using P max_eps_pos [OF eps9] by (rule mult_pos_pos)
  then have Gam: "0 < Gam" unfolding Gam_def
    using max_eps_pos [OF eps30] by (rule divide_pos_pos)
  have "0 \<le> Gam * max dtheta 0"
    using Gam by (intro mult_nonneg_nonneg) simp_all
  then have Fq: "0 \<le> Fq" unfolding Fq_def by (rule Fq_nonneg)
  have "0 < 1 + (sensor_temp_lsb_c cfg / max sg 0.000001) ^ 2"
    by (rule add_pos_nonneg) simp_all
  then have Fs: "0 \<le> Fs" unfolding Fs_def by simp
  have pk: "0 < P + low_power_knee_w cfg"
    using P knee [OF True] by (rule add_pos_nonneg)
  then have Fp: "0 \<le> Fp" unfolding Fp_def using P by simp
  have dFp: "py_div P (P + low_power_knee_w cfg) = Some Fp"
    unfolding Fp_def using pk by (rule py_div_pos)
  have "0 \<le> Fq * Fs * Fp" using Fq Fs Fp by (intro mult_nonneg_nonneg)
  then have dpow: "py_pow (Fq * Fs * Fp) (1 / 3) = Some ((Fq * Fs * Fp) powr (1 / 3))"
    by (rule py_pow_nonneg)
  have gpos: "(Gam > 0) = True" using Gam by simp
  note facts = dFp dpow gpos
  note unfolded_facts = facts [unfolded Fp_def Fq_def Fs_def Gam_def P_def]
  show ?thesis
    unfolding compute_micro_scale_factor_def Let_def
    by (simp only: True not_True_eq_False if_False tc sg bind.bind_lunit
        py_div_max [OF eps30] py_div_max [OF eps6] py_div_sq unfolded_facts
        if_True py_log_max [OF eps30]) blast
qed

subsection \<open>The period re-estimation\<close>

lemma those_map_Some: "those (map (\<lambda>x. Some (g x)) xs) = Some (map g xs)"
  by (induction xs) simp_all

lemma estimate_tau_th_total:
  assumes "0 < theta_min_s cfg" and "theta_min_s cfg \<le> theta_max_s cfg"
  shows "\<exists>r. estimate_tau_th cfg buf dt_mean = Some r
    \<and> (\<forall>te. r = Some te \<longrightarrow> 0 < te \<and> te \<le> theta_max_s cfg)"
proof (cases "length buf \<ge> 8")
  case False
  then show ?thesis by (simp add: estimate_tau_th_def)
next
  case True
  define window where "window = py_slice_from buf (- int (min (length buf) 256))"
  define derivs where "derivs = map (\<lambda>i. max ((window ! i - window ! (i - 1))
      / max dt_mean 0.000001) 0) [1..<length window]"
  define avg where "avg = sum_list derivs / real (max (length derivs) 1)"
  have "real (max (length derivs) 1) \<noteq> 0" by simp
  then have davg: "py_div (sum_list derivs) (real (max (length derivs) 1)) = Some avg"
    unfolding avg_def by (rule py_div_nz)
  have bound: "0 < min (max q (theta_min_s cfg)) (theta_max_s cfg)
      \<and> min (max q (theta_min_s cfg)) (theta_max_s cfg) \<le> theta_max_s cfg" for q
    using assms by (simp add: min_def max_def)
  have d10: "avg > 0.000001 \<Longrightarrow> py_div 10 avg = Some (10 / avg)"
    by (simp add: py_div_def)
  have "\<exists>r. (if avg > 0.000001 then do {
          q \<leftarrow> py_div 10 avg;
          Some (Some (min (max q (theta_min_s cfg)) (theta_max_s cfg)))
        } else Some None) = Some r \<and> (\<forall>te. r = Some te \<longrightarrow> 0 < te \<and> te \<le> theta_max_s cfg)"
    using bound d10 by (cases "avg > 0.000001") simp_all
  then show ?thesis
    unfolding estimate_tau_th_def Let_def
    by (simp only: True if_True py_div_max [OF eps6] bind.bind_lunit those_map_Some
        window_def [symmetric] derivs_def [symmetric] davg)
qed

lemma autocorr_scan_total:
  "\<exists>bk br. autocorr_scan series mean ks k0 r0 = Some (bk, br)
     \<and> (\<forall>k. bk = Some k \<longrightarrow> k0 = Some k \<or> k \<in> set ks)"
proof (induction ks arbitrary: k0 r0)
  case Nil
  then show ?case by simp
next
  case (Cons k ks)
  define r where "r = sum_list (map (\<lambda>i. (series ! i - mean) * (series ! (i - nat k) - mean))
        [nat k..<length series])
     / max (sum_list (map (\<lambda>i. (series ! i - mean) * (series ! i - mean)) [0..<length series]))
           (1 / 10 ^ 12)"
  have e12: "(0::real) < 1 / 10 ^ 12" by simp
  have step: "autocorr_scan series mean (k # ks) k0 r0 =
      (if r > r0 then autocorr_scan series mean ks (Some k) r
       else autocorr_scan series mean ks k0 r0)"
    unfolding autocorr_scan.simps Let_def r_def
    by (simp only: py_div_max [OF e12] bind.bind_lunit)
  show ?case
  proof (cases "r > r0")
    case True
    from Cons.IH [of "Some k" r] show ?thesis
      unfolding step by (simp only: if_P [OF True]) auto
  next
    case False
    from Cons.IH [of k0 r0] show ?thesis
      unfolding step by (simp only: if_not_P [OF False]) auto
  qed
qed

lemma float_inf_bound:
  assumes "0 \<le> x" and "x \<le> 10 ^ 300"
  shows "\<not> float_inf x"
proof -
  have "(10::real) ^ 300 < 2 ^ 1024 - 2 ^ 970" by simp
  with assms show ?thesis by (simp add: float_inf_def)
qed

lemma estimate_T_peak_total:
  assumes dt0: "0 \<le> dt_mean" and w0: "0 \<le> w" and wB: "w \<le> 256 * B"
    and tauB: "\<forall>t. tau = Some t \<longrightarrow> t \<le> B" and B0: "0 \<le> B" and BB: "B \<le> 10 ^ 290"
  shows "\<exists>r. estimate_T_peak buf dt_mean w tau = Some r \<and> (\<forall>tp. r = Some tp \<longrightarrow> 0 \<le> tp)"
proof (cases "length buf \<ge> 32")
  case False
  then show ?thesis by (simp add: estimate_T_peak_def)
next
  case True
  define series where "series = py_slice_from buf (- int (min (length buf) 512))"
  have "length series = min (length buf) 512"
    unfolding series_def py_slice_from_def using True by auto
  with True have "0 < length series" by linarith
  then have n0: "real (length series) \<noteq> 0" by simp
  have n1: "real (max (length series) 1) \<noteq> 0" by simp
  define mean where "mean = sum_list series / real (length series)"
  define var where "var = sum_list (map (\<lambda>x. (x - mean) * (x - mean)) series)
      / real (max (length series) 1)"
  define mls where "mls = (case tau of None \<Rightarrow> 2 * w
          | Some t \<Rightarrow> if t \<noteq> 0 then max (2 * w) (1.5 * t) else 2 * w)"
  define q where "q = mls / max dt_mean 0.000001"
  define lag where "lag = (if 0 \<le> q then \<lfloor>q\<rfloor> else \<lceil>q\<rceil>)"
  define min_lag where "min_lag = max 1 lag"
  define max_k where "max_k = min (int (length series) div 2) 256"
  have m0: "0 \<le> mls"
  proof (cases tau)
    case None
    with w0 show ?thesis by (simp add: mls_def)
  next
    case (Some t)
    have "0 \<le> 2 * w" using w0 by simp
    then have "0 \<le> max (2 * w) (1.5 * t)" by (rule max.coboundedI1)
    with Some w0 show ?thesis by (simp add: mls_def)
  qed
  have mB: "mls \<le> 512 * B"
  proof (cases tau)
    case None
    with wB show ?thesis by (simp add: mls_def)
  next
    case (Some t)
    with tauB have "t \<le> B" by simp
    with B0 have "1.5 * t \<le> 512 * B" by simp
    moreover have "2 * w \<le> 512 * B" using wB by simp
    ultimately have "max (2 * w) (1.5 * t) \<le> 512 * B" by (rule max.boundedI [rotated])
    with Some \<open>2 * w \<le> 512 * B\<close> show ?thesis by (simp add: mls_def)
  qed
  have big: "512 * B * 1000000 \<le> 10 ^ 300" using BB by simp
  have "mls \<le> 10 ^ 300"
  proof -
    have "mls \<le> 512 * B * 1000000" using mB B0 by simp
    then show ?thesis using big by (rule order_trans)
  qed
  with m0 have nf1: "\<not> float_inf mls" by (rule float_inf_bound)
  have dpos: "(0.000001::real) \<le> max dt_mean 0.000001" by simp
  have q0: "0 \<le> q" unfolding q_def using m0 max_eps_pos [OF eps6, of dt_mean] by simp
  have "q \<le> mls / 0.000001"
    unfolding q_def using dpos m0 by (rule divide_left_mono) (simp add: max_eps_pos [OF eps6])
  also have "\<dots> = mls * 1000000" by simp
  also have "\<dots> \<le> 512 * B * 1000000" using mB by simp
  finally have "q \<le> 10 ^ 300" using big by (rule order_trans)
  with q0 have nf2: "\<not> float_inf q" by (rule float_inf_bound)
  have "py_int q = Some lag" using nf2 by (simp add: py_int_def lag_def)
  with nf1 have lagfact:
    "(if float_inf mls then None else py_int (mls / max dt_mean 0.000001)) = Some lag"
    unfolding q_def [symmetric] by simp
  have dmean: "py_div (sum_list series) (real (length series)) = Some mean"
    unfolding mean_def using n0 by (rule py_div_nz)
  have dvar: "py_div (sum_list (map (\<lambda>x. (x - mean) * (x - mean)) series))
      (real (max (length series) 1)) = Some var"
    unfolding var_def using n1 by (rule py_div_nz)
  from autocorr_scan_total [of series mean "[min_lag..max_k - 1]" None 0]
  obtain bk br where scan: "autocorr_scan series mean [min_lag..max_k - 1] None 0 = Some (bk, br)"
    and from_list: "\<forall>k. bk = Some k \<longrightarrow> k \<in> set [min_lag..max_k - 1]"
    by auto
  have kpos: "bk = Some k \<Longrightarrow> 0 \<le> real_of_int k * dt_mean" for k
  proof -
    assume "bk = Some k"
    with from_list have "min_lag \<le> k" by auto
    moreover have "1 \<le> min_lag" unfolding min_lag_def by simp
    ultimately have "0 \<le> real_of_int k" by simp
    then show ?thesis using dt0 by (rule mult_nonneg_nonneg)
  qed
  have fin: "\<exists>r. (case bk of None \<Rightarrow> Some None
           | Some k \<Rightarrow> if br \<ge> 0.3 then Some (Some (real_of_int k * dt_mean))
                       else Some None) = Some r \<and> (\<forall>tp. r = Some tp \<longrightarrow> 0 \<le> tp)"
    using kpos by (cases bk) auto
  show ?thesis
  proof (cases "var > 0")
    case False
    show ?thesis
      unfolding estimate_T_peak_def Let_def
      by (simp only: True if_True series_def [symmetric] dmean bind.bind_lunit dvar
          if_not_P [OF False]) simp
  next
    case vpos: True
    show ?thesis
      unfolding estimate_T_peak_def Let_def
      using fin
      by (simp only: True if_True series_def [symmetric] dmean bind.bind_lunit dvar
          if_P [OF vpos] mls_def [symmetric] py_div_max [OF eps6] lagfact
          min_lag_def [symmetric] max_k_def [symmetric] scan prod.case)
  qed
qed

lemma harmonic_mean_None: "harmonic_mean a None = Some (py_or a None)"
  by (cases a) (simp_all add: harmonic_mean_def)

lemma sum_list_le_length:
  "\<forall>x\<in>set xs. x \<le> B \<Longrightarrow> sum_list xs \<le> B * real (length xs)" for B :: real
  by (induction xs) (simp_all add: algebra_simps)

lemma reestimate_t0_total:
  assumes ne: "buf_dt e \<noteq> []" and nonneg: "0 \<le> sum_list (buf_dt e)"
    and tmin: "0 < theta_min_s cfg" and tmax: "theta_min_s cfg \<le> theta_max_s cfg"
    and bnd: "\<forall>x\<in>set (buf_dt e). x \<le> B" and tB: "theta_max_s cfg \<le> B"
    and BB: "B \<le> 10 ^ 290"
  shows "\<exists>t. reestimate_t0 cfg e = Some t"
proof -
  define dt_mean where "dt_mean = sum_list (buf_dt e) / real (length (buf_dt e))"
  from ne have len: "real (length (buf_dt e)) \<noteq> 0" by simp
  from ne have lpos: "0 < real (length (buf_dt e))" by simp
  have dmean: "py_div (sum_list (buf_dt e)) (real (length (buf_dt e))) = Some dt_mean"
    unfolding dt_mean_def using len by (rule py_div_nz)
  have dt0: "0 \<le> dt_mean" unfolding dt_mean_def using nonneg by simp
  have B0: "0 \<le> B" using tmin tmax tB by simp
  have dtB: "dt_mean \<le> B"
    unfolding dt_mean_def using sum_list_le_length [OF bnd] lpos
    by (simp add: pos_divide_le_eq)
  define m where "m = real (min (length (buf_dt e)) 256)"
  have m0: "0 \<le> m" and m256: "m \<le> 256" by (simp_all add: m_def)
  have w0: "0 \<le> dt_mean * m" using dt0 m0 by (rule mult_nonneg_nonneg)
  have "dt_mean * m \<le> B * 256" using dtB m256 B0 m0 by (rule mult_mono)
  then have wB: "dt_mean * m \<le> 256 * B" by simp
  from estimate_tau_th_total [OF tmin tmax] obtain tau where
    tau: "estimate_tau_th cfg (buf_temp e) dt_mean = Some tau" and
    tau_pos': "\<forall>te. tau = Some te \<longrightarrow> 0 < te \<and> te \<le> theta_max_s cfg"
    by blast
  from tau_pos' have tau_pos: "\<forall>te. tau = Some te \<longrightarrow> 0 < te" by blast
  from tau_pos' tB have tauB: "\<forall>te. tau = Some te \<longrightarrow> te \<le> B" by auto
  define tau_eff where "tau_eff = py_or tau None"
  have eff_pos: "\<forall>te. tau_eff = Some te \<longrightarrow> 0 < te"
    using tau_pos unfolding tau_eff_def py_or_def by (auto split: option.splits if_splits)
  have hm: "harmonic_mean tau None = Some tau_eff"
    unfolding tau_eff_def by (rule harmonic_mean_None)
  from estimate_T_peak_total [OF dt0 w0 wB tauB B0 BB] obtain tp0 where
    tp0: "estimate_T_peak (buf_rle_sm e) dt_mean
            (dt_mean * real (min (length (buf_dt e)) 256)) tau = Some tp0" and
    tp0_pos: "\<forall>tp. tp0 = Some tp \<longrightarrow> 0 \<le> tp"
    unfolding m_def by blast
  define T_peak where "T_peak = (case tp0 of None \<Rightarrow> tau_eff | Some t \<Rightarrow> Some t)"
  have peak_pos: "\<forall>tp. T_peak = Some tp \<longrightarrow> 0 \<le> tp"
    using tp0_pos eff_pos unfolding T_peak_def by (auto split: option.splits)
  have cand: "\<exists>c. (case tau_eff of None \<Rightarrow> Some T_peak
        | Some te \<Rightarrow>
            (case T_peak of None \<Rightarrow> Some tau_eff
             | Some tp \<Rightarrow> map_option Some (py_pow (tp * te) 0.5))) = Some c"
  proof (cases tau_eff)
    case None
    then show ?thesis by simp
  next
    case (Some te)
    with eff_pos have te: "0 \<le> te" by simp
    show ?thesis
    proof (cases T_peak)
      case None
      with Some show ?thesis by simp
    next
      case tp: (Some tp)
      with peak_pos have "0 \<le> tp" by simp
      then have "0 \<le> tp * te" using te by (rule mult_nonneg_nonneg)
      then have "py_pow (tp * te) 0.5 = Some ((tp * te) powr 0.5)" by (rule py_pow_nonneg)
      with Some tp show ?thesis by simp
    qed
  qed
  then obtain c where c: "(case tau_eff of None \<Rightarrow> Some T_peak
        | Some te \<Rightarrow>
            (case T_peak of None \<Rightarrow> Some tau_eff
             | Some tp \<Rightarrow> map_option Some (py_pow (tp * te) 0.5))) = Some c"
    by blast
  show ?thesis
    unfolding reestimate_t0_def Let_def
    by (simp only: dmean bind.bind_lunit tau hm tp0 T_peak_def [symmetric] c) blast
qed

text \<open>
  The mean sampling interval is not negative when the period is re-estimated, also for
  negative \<open>dt_s\<close>: every suffix of the interval buffer sums to more than the time
  accumulated since the last re-estimation minus the update interval, and the
  re-estimation only runs once the accumulated time has reached the update interval.
\<close>

lemma rb_push_ne: "rb_push buf x \<noteq> []"
  by (cases buf) (simp_all add: rb_push_def Let_def rb_len_def)

lemma rb_push_drop: "rb_push buf x = drop (if length buf < rb_len then 0 else 1) (buf @ [x])"
proof -
  have tl: "tl ys = drop 1 ys" for ys :: "real list" by (simp add: drop_Suc)
  have "rb_push buf x = (if length buf < rb_len then buf @ [x] else tl (buf @ [x]))"
    by (auto simp: rb_push_def Let_def)
  then show ?thesis by (simp only: tl drop_0 if_distrib [of "\<lambda>n. drop n (buf @ [x])"])
qed

lemma drop_snoc_cases: "drop k (xs @ [x]) = drop k xs @ [x] \<or> drop k (xs @ [x]) = []"
  by (cases "k \<le> length xs") simp_all

lemma rb_push_suffix:
  "(\<exists>j. drop k (rb_push buf x) = drop j buf @ [x]) \<or> drop k (rb_push buf x) = []"
proof -
  define i :: nat where "i = (if length buf < rb_len then 0 else 1)"
  have "drop k (rb_push buf x) = drop (k + i) (buf @ [x])"
    unfolding rb_push_drop i_def [symmetric] by (simp only: drop_drop)
  with drop_snoc_cases [of "k + i" buf x] show ?thesis by auto
qed

lemma theta_update_enabled:
  assumes "enable_theta_clock cfg"
  shows "theta_update_if_needed cfg e sm temp dt =
    (if since_theta_update_s e + dt < theta_update_sec cfg
     then Some (e\<lparr>buf_rle_sm := rb_push (buf_rle_sm e) sm,
                  buf_temp := (case temp of None \<Rightarrow> buf_temp e | Some t \<Rightarrow> rb_push (buf_temp e) t),
                  buf_dt := rb_push (buf_dt e) dt,
                  since_theta_update_s := since_theta_update_s e + dt\<rparr>)
     else reestimate_t0 cfg
            (e\<lparr>buf_rle_sm := rb_push (buf_rle_sm e) sm,
               buf_temp := (case temp of None \<Rightarrow> buf_temp e | Some t \<Rightarrow> rb_push (buf_temp e) t),
               buf_dt := rb_push (buf_dt e) dt,
               since_theta_update_s := 0\<rparr>)
          \<bind> (\<lambda>t0. Some (e\<lparr>buf_rle_sm := rb_push (buf_rle_sm e) sm,
               buf_temp := (case temp of None \<Rightarrow> buf_temp e | Some t \<Rightarrow> rb_push (buf_temp e) t),
               buf_dt := rb_push (buf_dt e) dt,
               since_theta_update_s := 0, t0_s := t0\<rparr>)))"
  using assms
  by (cases temp) (simp_all add: theta_update_if_needed_def Let_def rb_push_ne)

lemma set_rb_push: "set (rb_push buf x) \<subseteq> insert x (set buf)"
proof -
  have "set (rb_push buf x) \<subseteq> set (buf @ [x])"
    unfolding rb_push_drop by (rule set_drop_subset)
  then show ?thesis by auto
qed

lemma theta_update_total:
  assumes inv: "enable_theta_clock cfg \<Longrightarrow>
      \<forall>k. since_theta_update_s e - theta_update_sec cfg < sum_list (drop k (buf_dt e))"
    and thr: "0 < theta_update_sec cfg"
    and tmin: "0 < theta_min_s cfg" and tmax: "theta_min_s cfg \<le> theta_max_s cfg"
    and bnd: "\<forall>x\<in>set (buf_dt e). x \<le> B" and dtB: "dt \<le> B"
    and tB: "theta_max_s cfg \<le> B" and BB: "B \<le> 10 ^ 290"
  shows "\<exists>e3. theta_update_if_needed cfg e sm temp dt = Some e3 \<and>
    (enable_theta_clock cfg \<longrightarrow>
      (\<forall>k. since_theta_update_s e3 - theta_update_sec cfg < sum_list (drop k (buf_dt e3)))) \<and>
    (\<forall>x\<in>set (buf_dt e3). x \<le> B)"
proof (cases "enable_theta_clock cfg")
  case False
  have "\<forall>x\<in>set (rb_push (buf_dt e) dt). x \<le> B"
    using set_rb_push [of "buf_dt e" dt] bnd dtB by auto
  with False show ?thesis by (simp add: theta_update_if_needed_def)
next
  case True
  note inv' = inv [OF True]
  define since1 where "since1 = since_theta_update_s e + dt"
  define buf1 where "buf1 = rb_push (buf_dt e) dt"
  have b1: "\<forall>x\<in>set buf1. x \<le> B"
    unfolding buf1_def using set_rb_push [of "buf_dt e" dt] bnd dtB by auto
  have suffix: "sum_list (drop k buf1) = 0 \<or> since1 - theta_update_sec cfg < sum_list (drop k buf1)"
    for k
  proof -
    from rb_push_suffix [of k "buf_dt e" dt]
    consider j where "drop k buf1 = drop j (buf_dt e) @ [dt]" | "drop k buf1 = []"
      unfolding buf1_def by blast
    then show ?thesis
    proof cases
      case 1
      from inv' have "since_theta_update_s e - theta_update_sec cfg < sum_list (drop j (buf_dt e))"
        by blast
      then show ?thesis unfolding 1 since1_def by simp
    next
      case 2
      then show ?thesis by simp
    qed
  qed
  show ?thesis
  proof (cases "since1 < theta_update_sec cfg")
    case less: True
    have "since1 - theta_update_sec cfg < sum_list (drop k buf1)" for k
      using suffix [of k] less by auto
    then show ?thesis
      using less b1
      unfolding theta_update_enabled [OF True] since1_def [symmetric] buf1_def [symmetric]
      by simp
  next
    case ge: False
    have pos: "- theta_update_sec cfg < sum_list (drop k buf1)" for k
      using suffix [of k] ge thr by auto
    define e5 where "e5 = e\<lparr>buf_rle_sm := rb_push (buf_rle_sm e) sm,
               buf_temp := (case temp of None \<Rightarrow> buf_temp e | Some t \<Rightarrow> rb_push (buf_temp e) t),
               buf_dt := buf1, since_theta_update_s := 0\<rparr>"
    have ne: "buf_dt e5 \<noteq> []" by (simp add: e5_def buf1_def rb_push_ne)
    have nonempty_suffix: "since1 - theta_update_sec cfg < sum_list (drop 0 buf1)"
    proof -
      from rb_push_suffix [of 0 "buf_dt e" dt] rb_push_ne [of "buf_dt e" dt]
      obtain j where "drop 0 buf1 = drop j (buf_dt e) @ [dt]"
        unfolding buf1_def by auto
      moreover from inv'
      have "since_theta_update_s e - theta_update_sec cfg < sum_list (drop j (buf_dt e))"
        by blast
      ultimately show ?thesis unfolding since1_def by simp
    qed
    with ge have "0 \<le> sum_list (buf_dt e5)" by (simp add: e5_def)
    moreover have "\<forall>x\<in>set (buf_dt e5). x \<le> B" using b1 by (simp add: e5_def)
    ultimately obtain t where
      t: "reestimate_t0 cfg e5 = Some t"
      using reestimate_t0_total [OF ne _ tmin tmax _ tB BB] by blast
    show ?thesis
      using ge pos t b1
      unfolding theta_update_enabled [OF True] since1_def [symmetric] buf1_def [symmetric]
        e5_def
      by simp
  qed
qed

subsection \<open>The whole call, and runs\<close>

lemma py_div_one_plus:
  assumes "0 < e"
  shows "py_div x (1 + 1 / max t e) = Some (x / (1 + 1 / max t e))"
proof -
  have "0 < 1 / max t e" using max_eps_pos [OF assms] by simp
  then have "0 < 1 + 1 / max t e" by (rule add_pos_pos [OF zero_less_one])
  then show ?thesis by (rule py_div_pos)
qed

lemma py_div_denom:
  assumes "0 < e"
  shows "py_div x (max a e * (1 + 1 / max t e)) = Some (x / (max a e * (1 + 1 / max t e)))"
proof -
  have "0 < 1 / max t e" using max_eps_pos [OF assms] by simp
  then have "0 < 1 + 1 / max t e" by (rule add_pos_pos [OF zero_less_one])
  with max_eps_pos [OF assms] have "0 < max a e * (1 + 1 / max t e)" by (rule mult_pos_pos)
  then show ?thesis by (rule py_div_pos)
qed

lemma compute_rle_total:
  assumes inv: "enable_theta_clock cfg \<Longrightarrow>
      \<forall>k. since_theta_update_s e - theta_update_sec cfg < sum_list (drop k (buf_dt e))"
    and sn: "0 < smooth_n cfg"
    and thr: "0 < theta_update_sec cfg"
    and tmin: "0 < theta_min_s cfg" and tmax: "theta_min_s cfg \<le> theta_max_s cfg"
    and knee: "enable_micro_scale cfg \<Longrightarrow> 0 \<le> low_power_knee_w cfg"
    and tw: "\<not> use_theta_windows cfg"
    and bnd: "\<forall>x\<in>set (buf_dt e). x \<le> B" and dtB: "dt \<le> B"
    and tB: "theta_max_s cfg \<le> B" and BB: "B \<le> 10 ^ 290"
  shows "\<exists>r e'. compute_rle cfg e util temp pw dt = Some (r, e') \<and>
    (enable_theta_clock cfg \<longrightarrow>
      (\<forall>k. since_theta_update_s e' - theta_update_sec cfg < sum_list (drop k (buf_dt e')))) \<and>
    (\<forall>x\<in>set (buf_dt e'). x \<le> B)"
proof -
  obtain c e1 where cc: "compute_components cfg e util temp pw dt = Some (c, e1)"
    using compute_components_total [OF tw] by blast
  note e1 = compute_components_engine [OF cc]
  define raw where "raw = eta c * stability_c c
     / (max (a_load_c c) 0.000001 * (1 + 1 / max (t_sustain c) 0.000001))"
  obtain n_smooth where sw: "smooth_window_n cfg e1 = Some n_smooth"
    using smooth_window_n_total [OF tw] by blast
  obtain sm e2 where sr: "smooth_rle cfg e1 raw n_smooth = Some (sm, e2)"
    using smooth_rle_total [OF sn] by blast
  note e2 = smooth_rle_engine [OF sr]
  have inv2: "enable_theta_clock cfg \<Longrightarrow>
      \<forall>k. since_theta_update_s e2 - theta_update_sec cfg < sum_list (drop k (buf_dt e2))"
    using inv by (simp add: e2 e1)
  have bnd2: "\<forall>x\<in>set (buf_dt e2). x \<le> B"
    using bnd by (simp add: e2 e1)
  from theta_update_total [OF inv2 thr tmin tmax bnd2 dtB tB BB] obtain e3 where
    tu: "theta_update_if_needed cfg e2 sm temp dt = Some e3" and
    inv3: "enable_theta_clock cfg \<longrightarrow>
      (\<forall>k. since_theta_update_s e3 - theta_update_sec cfg < sum_list (drop k (buf_dt e3)))" and
    bnd3: "\<forall>x\<in>set (buf_dt e3). x \<le> B"
    by blast
  obtain dtheta gap e4 where ta: "theta_advance cfg e3 dt = Some (dtheta, gap, e4)"
    using theta_advance_total by blast
  from theta_advance_engine [OF ta] obtain tc ti where e4: "e4 = e3\<lparr>theta_c := tc, theta_idx := ti\<rparr>"
    by blast
  obtain F where "compute_micro_scale_factor cfg e4 pw temp dt dtheta (t0_s e4) = Some F"
    using compute_micro_scale_factor_total [OF knee] by blast
  then obtain Fmu Fq Fs Fp Gam logG where
    mf: "compute_micro_scale_factor cfg e4 pw temp dt dtheta (t0_s e4)
           = Some (Fmu, Fq, Fs, Fp, Gam, logG)"
    by (cases F) auto
  define n_win where "n_win = (case n_smooth of None \<Rightarrow> smooth_n cfg
                  | Some m \<Rightarrow> if m \<noteq> 0 then m else smooth_n cfg)"
  have nw: "0 < n_win"
  proof (cases n_smooth)
    case None
    with sn show ?thesis by (simp add: n_win_def)
  next
    case (Some m)
    with sw have "3 \<le> m" by (simp add: smooth_window_n_ge3)
    with Some show ?thesis by (simp add: n_win_def)
  qed
  define e5 where "e5 = e4\<lparr>rle_hist_ms := rle_hist_ms e4 @ [raw * Fmu]\<rparr>"
  obtain sm_ms where ms: "rolling_mean (rle_hist_ms e5) n_win = Some sm_ms"
    using rolling_mean_total [OF nw] by blast
  obtain w where w: "w_from_fmu Fmu = Some w"
    using w_from_fmu_total by blast
  define e6 where "e6 = e5\<lparr>rle_hist_uni := rle_hist_uni e5 @ [raw * (1 - w) + raw * Fmu * w]\<rparr>"
  obtain sm_uni where uni: "rolling_mean (rle_hist_uni e6) n_win = Some sm_uni"
    using rolling_mean_total [OF nw] by blast
  obtain flag e7 where
    dc: "detect_collapse cfg e6 sm util (a_load_c c) temp (t_sustain c) = Some (flag, e7)"
    using detect_collapse_total [OF tw] by blast
  from detect_collapse_engine [OF dc] obtain p k where e7: "e7 = e6\<lparr>peak := p, below_ctr := k\<rparr>"
    by blast
  have inv7: "enable_theta_clock cfg \<longrightarrow>
      (\<forall>k. since_theta_update_s e7 - theta_update_sec cfg < sum_list (drop k (buf_dt e7)))"
    using inv3 by (simp add: e7 e6_def e5_def e4)
  have bnd7: "\<forall>x\<in>set (buf_dt e7). x \<le> B"
    using bnd3 by (simp add: e7 e6_def e5_def e4)
  note facts = sr ms uni [unfolded e6_def] dc [unfolded e6_def]
  note ufacts = facts [unfolded e5_def n_win_def raw_def]
  show ?thesis
    unfolding compute_rle_def Let_def
    by (simp only: cc bind.bind_lunit prod.case py_div_max [OF eps6] py_div_denom [OF eps6]
        sw ufacts tu ta mf w py_div_one_plus [OF eps6] normalize_rle_cpu if_Some)
       (use inv7 bnd7 in blast)
qed


lemma run_rle_total:
  assumes inv: "enable_theta_clock cfg \<longrightarrow>
      (\<forall>k. since_theta_update_s e - theta_update_sec cfg < sum_list (drop k (buf_dt e)))"
    and sn: "0 < smooth_n cfg"
    and thr: "0 < theta_update_sec cfg"
    and tmin: "0 < theta_min_s cfg" and tmax: "theta_min_s cfg \<le> theta_max_s cfg"
    and knee: "enable_micro_scale cfg \<longrightarrow> 0 \<le> low_power_knee_w cfg"
    and tw: "\<not> use_theta_windows cfg"
    and bnd: "\<forall>x\<in>set (buf_dt e). x \<le> B" and dts: "\<forall>s\<in>set ss. dt_s s \<le> B"
    and tB: "theta_max_s cfg \<le> B" and BB: "B \<le> 10 ^ 290"
  shows "\<exists>out. run_rle cfg e ss = Some out"
  using inv bnd dts
proof (induction ss arbitrary: e)
  case Nil
  show ?case by simp
next
  case (Cons s ss)
  from Cons.prems knee have
    "enable_theta_clock cfg \<Longrightarrow>
      \<forall>k. since_theta_update_s e - theta_update_sec cfg < sum_list (drop k (buf_dt e))"
    "enable_micro_scale cfg \<Longrightarrow> 0 \<le> low_power_knee_w cfg"
    "\<forall>x\<in>set (buf_dt e). x \<le> B" "dt_s s \<le> B"
    by simp_all
  from compute_rle_total [OF this(1) sn thr tmin tmax this(2) tw this(3) this(4) tB BB]
  obtain r e' where
    step: "compute_rle cfg e (util_pct s) (temp_c s) (power_w s) (dt_s s) = Some (r, e')" and
    inv': "enable_theta_clock cfg \<longrightarrow>
      (\<forall>k. since_theta_update_s e' - theta_update_sec cfg < sum_list (drop k (buf_dt e')))" and
    bnd': "\<forall>x\<in>set (buf_dt e'). x \<le> B"
    by blast
  from Cons.prems have "\<forall>s\<in>set ss. dt_s s \<le> B" by simp
  from Cons.IH [OF inv' bnd' this] obtain rest where "run_rle cfg e' ss = Some rest" by blast
  with step show ?case by simp
qed

lemma init_engine_inv:
  assumes "0 < thr"
  shows "\<forall>k. since_theta_update_s init_engine - thr < sum_list (drop k (buf_dt init_engine))"
  using assms by (simp add: init_engine_def)

lemma run_rle_init_total:
  assumes knee: "enable_micro_scale a \<longrightarrow> 0 \<le> low_power_knee_w a"
    and tw: "\<not> use_theta_windows a"
    and tmin: "theta_min_s a \<le> 10 ^ 290" and tmax: "theta_max_s a \<le> 10 ^ 290"
    and dts: "\<forall>s\<in>set ss. dt_s s \<le> 10 ^ 290"
  shows "\<exists>out. run_rle (init_config a) init_engine ss = Some out"
proof (rule run_rle_total [where B = "10 ^ 290"])
  have thr: "0 < theta_update_sec (init_config a)" by (simp add: init_config_def)
  from init_engine_inv [OF thr]
  show "enable_theta_clock (init_config a) \<longrightarrow>
      (\<forall>k. since_theta_update_s init_engine - theta_update_sec (init_config a)
          < sum_list (drop k (buf_dt init_engine)))"
    by simp
  show "0 < smooth_n (init_config a)" by (simp add: init_config_def)
  show "0 < theta_update_sec (init_config a)" by (rule thr)
  show "0 < theta_min_s (init_config a)" by (simp add: init_config_def)
  show "theta_min_s (init_config a) \<le> theta_max_s (init_config a)" by (simp add: init_config_def)
  show "enable_micro_scale (init_config a) \<longrightarrow> 0 \<le> low_power_knee_w (init_config a)"
    using knee by (simp add: init_config_def)
  show "\<not> use_theta_windows (init_config a)" using tw by (simp add: init_config_def)
  show "\<forall>x\<in>set (buf_dt init_engine). x \<le> 10 ^ 290" by (simp add: init_engine_def)
  show "\<forall>s\<in>set ss. dt_s s \<le> 10 ^ 290" by (rule dts)
  show "theta_max_s (init_config a) \<le> 10 ^ 290"
    using tmin tmax by (simp add: init_config_def)
  show "(10::real) ^ 290 \<le> 10 ^ 290" by simp
qed

lemma idle_runs_return:
  "\<exists>out. run_rle (init_config default_config) init_engine (replicate n idle_sample) = Some out"
  by (rule run_rle_init_total) (simp_all add: default_config_def idle_sample_def)


text \<open>
  The integer conversion of line 301 is an error path as well. With a mean interval of
  \<open>3.125e306\<close> seconds over 32 samples (31 intervals of one second and one of \<open>1e308\<close>)
  the window length \<open>dt_win_s\<close> is \<open>1e308\<close>, its double is an infinity, and the estimator
  raises as soon as the smoothed scores are not all equal.
\<close>

lemma estimate_T_peak_overflow:
  "estimate_T_peak (replicate 31 0 @ [1]) (3125 * 10 ^ 303) (10 ^ 308) None = None"
  by (simp add: estimate_T_peak_def py_slice_from_def py_div_def float_inf_def
      sum_list_replicate Let_def)

text \<open>
  Claim C8 fails on the code. Every divisor of \<open>compute_rle\<close> is guarded by a \<open>max\<close> with
  a positive constant, except the one of the low-power term of the micro-scale factor,
  \<open>F_p = P / (P + self.low_power_knee_w)\<close> (line 216): with the micro-scale correction
  enabled and \<open>low_power_knee_w = -10.0\<close>, the idle sample (power 10 W) makes the divisor
  zero and the first call raises ZeroDivisionError.
\<close>

theorem micro_scale_knee_raises:
  "run_rle
     (init_config (default_config\<lparr>enable_micro_scale := True, low_power_knee_w := - 10\<rparr>))
     init_engine [idle_sample] = None"
  by (simp add: idle_sample_def compute_rle_def compute_components_def compute_t_sustain_def
      rolling_stdev_def rolling_mean_def smooth_rle_def theta_update_if_needed_def
      theta_advance_def compute_micro_scale_factor_def rb_push_def rb_len_def
      smooth_window_n_def py_div_def py_idx_def init_config_def default_config_def
      init_engine_def Let_def)


section \<open>History buffers\<close>

lemma rb_push_length: "length buf \<le> rb_len \<Longrightarrow> length (rb_push buf x) \<le> rb_len"
  by (auto simp: rb_push_def Let_def)

lemma rb_push_recent:
  assumes "length buf \<le> rb_len"
  shows "rb_push buf x = drop (length (buf @ [x]) - rb_len) (buf @ [x])"
proof (cases "length buf < rb_len")
  case True
  then show ?thesis unfolding rb_push_drop by simp
next
  case False
  with assms have "length buf = rb_len" by simp
  then show ?thesis unfolding rb_push_drop by simp
qed

lemma foldl_rb_push_length:
  "length buf \<le> rb_len \<Longrightarrow> length (foldl rb_push buf xs) \<le> rb_len"
  by (induction xs arbitrary: buf) (simp_all add: rb_push_length)

lemma foldl_rb_push_recent:
  assumes "length buf \<le> rb_len"
  shows "foldl rb_push buf xs = drop (length (buf @ xs) - rb_len) (buf @ xs)"
  using assms
proof (induction xs arbitrary: buf)
  case Nil
  then show ?case by simp
next
  case (Cons x xs)
  define i where "i = length (buf @ [x]) - rb_len"
  have push: "rb_push buf x = drop i (buf @ [x])"
    unfolding i_def by (rule rb_push_recent [OF Cons.prems])
  have i: "i \<le> length (buf @ [x])" unfolding i_def by simp
  have len: "length (rb_push buf x) \<le> rb_len" by (rule rb_push_length [OF Cons.prems])
  have "foldl rb_push buf (x # xs) = foldl rb_push (rb_push buf x) xs" by simp
  also have "\<dots> = drop (length (rb_push buf x @ xs) - rb_len) (rb_push buf x @ xs)"
    by (rule Cons.IH [OF len])
  also have "rb_push buf x @ xs = drop i (buf @ x # xs)"
  proof -
    have "drop n ys @ zs = drop n (ys @ zs)" if "n \<le> length ys" for n and ys zs :: "real list"
      using that by simp
    from this [OF i] have "drop i (buf @ [x]) @ xs = drop i ((buf @ [x]) @ xs)" .
    then show ?thesis unfolding push by simp
  qed
  also have "drop (length (drop i (buf @ x # xs)) - rb_len) (drop i (buf @ x # xs))
      = drop (length (buf @ x # xs) - rb_len) (buf @ x # xs)"
  proof -
    have "length (drop i (buf @ x # xs)) - rb_len + i = length (buf @ x # xs) - rb_len"
      unfolding i_def by simp
    then show ?thesis by (simp only: drop_drop)
  qed
  finally show ?case .
qed

lemma final_engine_Cons: "final_engine e ((r, e') # rest) = final_engine e' rest"
  by (simp add: final_engine_def)

lemma foldl_rb_push_temps:
  "foldl (\<lambda>b s. case temp_c s of None \<Rightarrow> b | Some t \<Rightarrow> rb_push b t) buf ss
     = foldl rb_push buf (List.map_filter temp_c ss)"
  by (induction ss arbitrary: buf) (simp_all add: List.map_filter_simps split: option.split)

lemma run_rle_final_all:
  assumes "run_rle cfg e ss = Some out"
  shows "util_hist (final_engine e out) = util_hist e @ map (\<lambda>s. max 0 (min 100 (util_pct s))) ss
    \<and> temp_hist (final_engine e out) = temp_hist e @ List.map_filter temp_c ss
    \<and> rle_hist (final_engine e out) = rle_hist e @ map (\<lambda>p. rle_raw (fst p)) out
    \<and> rle_hist_ms (final_engine e out) = rle_hist_ms e @ map (\<lambda>p. rle_raw_ms (fst p)) out
    \<and> rle_hist_uni (final_engine e out) = rle_hist_uni e @ map (\<lambda>p. rle_raw_uni (fst p)) out
    \<and> buf_dt (final_engine e out) = foldl rb_push (buf_dt e) (map dt_s ss)
    \<and> buf_rle_sm (final_engine e out) =
          (if enable_theta_clock cfg
           then foldl rb_push (buf_rle_sm e) (map (\<lambda>p. rle_smoothed (fst p)) out)
           else buf_rle_sm e)
    \<and> buf_temp (final_engine e out) =
          (if enable_theta_clock cfg
           then foldl rb_push (buf_temp e) (List.map_filter temp_c ss)
           else buf_temp e)"
  using assms
proof (induction ss arbitrary: e out)
  case Nil
  then show ?case by (simp add: final_engine_def List.map_filter_simps)
next
  case (Cons s ss)
  from Cons.prems obtain r e' rest where
    step: "compute_rle cfg e (util_pct s) (temp_c s) (power_w s) (dt_s s) = Some (r, e')" and
    rest: "run_rle cfg e' ss = Some rest" and out: "out = (r, e') # rest"
    by (rule run_rle_Cons)
  note frame = compute_rle_frame [OF step]
  from Cons.IH [OF rest] show ?case
    unfolding out final_engine_Cons frame
    by (cases "temp_c s") (simp_all add: List.map_filter_simps)
qed

lemmas run_rle_final =
  run_rle_final_all [THEN conjunct1]
  run_rle_final_all [THEN conjunct2, THEN conjunct1]
  run_rle_final_all [THEN conjunct2, THEN conjunct2, THEN conjunct1]
  run_rle_final_all [THEN conjunct2, THEN conjunct2, THEN conjunct2, THEN conjunct1]
  run_rle_final_all [THEN conjunct2, THEN conjunct2, THEN conjunct2, THEN conjunct2, THEN conjunct1]
  run_rle_final_all [THEN conjunct2, THEN conjunct2, THEN conjunct2, THEN conjunct2, THEN conjunct2,
    THEN conjunct1]
  run_rle_final_all [THEN conjunct2, THEN conjunct2, THEN conjunct2, THEN conjunct2, THEN conjunct2,
    THEN conjunct2, THEN conjunct1]
  run_rle_final_all [THEN conjunct2, THEN conjunct2, THEN conjunct2, THEN conjunct2, THEN conjunct2,
    THEN conjunct2, THEN conjunct2]

text \<open>
  Claim C1, as stated, fails: \<open>util_hist\<close>, \<open>temp_hist\<close>, \<open>rle_hist\<close>, \<open>rle_hist_ms\<close> and
  \<open>rle_hist_uni\<close> are appended to and never evicted. After 1025 idle samples on a default
  engine the utilization and score histories hold 1025 entries, more than the only
  capacity the engine has (\<open>_rb_len = 1024\<close>).
\<close>

theorem history_unbounded_counterexample:
  "run_rle (init_config default_config) init_engine (replicate 1025 idle_sample) \<noteq> None \<and>
   length (util_hist (final_engine init_engine
      (the (run_rle (init_config default_config) init_engine (replicate 1025 idle_sample))))) = 1025 \<and>
   length (rle_hist (final_engine init_engine
      (the (run_rle (init_config default_config) init_engine (replicate 1025 idle_sample))))) = 1025 \<and>
   rb_len = 1024"
proof -
  from idle_runs_return obtain out where
    run: "run_rle (init_config default_config) init_engine (replicate 1025 idle_sample) = Some out"
    by blast
  have len: "length out = 1025" using run_rle_length [OF run] by simp
  have "length (util_hist (final_engine init_engine out)) = 1025"
    unfolding run_rle_final(1) [OF run] by (simp add: init_engine_def)
  moreover have "length (rle_hist (final_engine init_engine out)) = 1025"
    unfolding run_rle_final(3) [OF run] by (simp add: init_engine_def len)
  ultimately show ?thesis
    unfolding run by (simp add: rb_len_def)
qed


text \<open>
  Claim C1, amended: after any number of calls on a fresh engine, the three ring buffers
  of the clock estimator hold at most \<open>_rb_len = 1024\<close> entries, namely the most recent
  ones in arrival order (the oldest is evicted first); the utilization, temperature and
  score histories hold one entry per call (the temperature history one per sample that
  has a temperature) and are never evicted.
\<close>

theorem ring_buffers_bounded:
  assumes run: "run_rle (init_config a) init_engine ss = Some out"
  shows "length (buf_dt (final_engine init_engine out)) \<le> rb_len
     \<and> length (buf_rle_sm (final_engine init_engine out)) \<le> rb_len
     \<and> length (buf_temp (final_engine init_engine out)) \<le> rb_len
     \<and> buf_dt (final_engine init_engine out) = drop (length ss - rb_len) (map dt_s ss)
     \<and> buf_rle_sm (final_engine init_engine out) =
          (if enable_theta_clock a
           then drop (length out - rb_len) (map (\<lambda>p. rle_smoothed (fst p)) out) else [])
     \<and> buf_temp (final_engine init_engine out) =
          (if enable_theta_clock a
           then drop (length (List.map_filter temp_c ss) - rb_len) (List.map_filter temp_c ss)
           else [])
     \<and> util_hist (final_engine init_engine out) = map (\<lambda>s. max 0 (min 100 (util_pct s))) ss
     \<and> temp_hist (final_engine init_engine out) = List.map_filter temp_c ss
     \<and> rle_hist (final_engine init_engine out) = map (\<lambda>p. rle_raw (fst p)) out
     \<and> rle_hist_ms (final_engine init_engine out) = map (\<lambda>p. rle_raw_ms (fst p)) out
     \<and> rle_hist_uni (final_engine init_engine out) = map (\<lambda>p. rle_raw_uni (fst p)) out
     \<and> length out = length ss"
proof -
  have e: "enable_theta_clock (init_config a) = enable_theta_clock a"
    by (simp add: init_config_def)
  have empty: "length ([]::real list) \<le> rb_len" by simp
  have b: "buf_dt init_engine = []" "buf_rle_sm init_engine = []" "buf_temp init_engine = []"
    "util_hist init_engine = []" "temp_hist init_engine = []" "rle_hist init_engine = []"
    "rle_hist_ms init_engine = []" "rle_hist_uni init_engine = []"
    by (simp_all add: init_engine_def)
  note fin = run_rle_final [OF run, unfolded b e append_Nil]
  note recent = foldl_rb_push_recent [OF empty, unfolded append_Nil]
  note bounded = foldl_rb_push_length [OF empty]
  show ?thesis
    unfolding fin recent
    using bounded [unfolded recent] run_rle_length [OF run]
    by simp
qed

theorem ring_buffers_bounded_witness:
  "\<exists>out. run_rle (init_config default_config) init_engine (replicate 1025 idle_sample) = Some out
     \<and> length (buf_dt (final_engine init_engine out)) \<le> rb_len
     \<and> buf_dt (final_engine init_engine out) = replicate 1024 1
     \<and> util_hist (final_engine init_engine out) = replicate 1025 5
     \<and> length out = 1025"
proof -
  from idle_runs_return obtain out where
    run: "run_rle (init_config default_config) init_engine (replicate 1025 idle_sample) = Some out"
    by blast
  from ring_buffers_bounded [OF run] run show ?thesis
    by (intro exI [of _ out]) (simp add: idle_sample_def rb_len_def del: run_rle.simps)
qed

section \<open>The collapse gate on runs\<close>

lemma compute_rle_a_load:
  assumes step: "compute_rle cfg e util temp (Some w) dt = Some (r, e')" and w: "0 < w"
  shows "a_load r = w / max (rated_power_w cfg) 0.000001"
proof -
  from compute_rle_stages [OF step] obtain c :: components and e1 where
    cc: "compute_components cfg e util temp (Some w) dt = Some (c, e1)" and
    al: "a_load r = a_load_c c"
    by blast
  from cc w have "a_load_c c = w / max (rated_power_w cfg) 0.000001"
    unfolding compute_components_def Let_def
    by (clarsimp simp: bind_eq_Some_conv) (simp add: py_div_def split: if_splits)
  with al show ?thesis by simp
qed

text \<open>
  Claim C6, as stated, fails: it is conditioned on the default gate thresholds only, and
  the hysteresis count \<open>hysteresis_s\<close> is a constructor argument like them. With
  \<open>hysteresis_s = 0\<close> the test \<open>below_ctr >= hysteresis_samples\<close> (line 494) holds while
  the counter is zero, so after warm-up a sample with the gate closed is flagged as soon
  as there is evidence. Five samples with utilization 5 percent, load factor 0.1 and a
  temperature of 84 degrees (within 5 degrees of the limit 85) report \<open>collapse = 1\<close> at
  the fifth call.
\<close>

theorem gate_closed_counterexample:
  "util_gate_pct (init_config (default_config\<lparr>hysteresis_s := 0\<rparr>)) = 60 \<and>
   a_load_gate (init_config (default_config\<lparr>hysteresis_s := 0\<rparr>)) = 0.75 \<and>
   util_pct warm_sample < 60 \<and>
   run_rle (init_config (default_config\<lparr>hysteresis_s := 0\<rparr>)) init_engine
     [warm_sample, warm_sample, warm_sample, warm_sample, warm_sample] \<noteq> None \<and>
   map (\<lambda>p. (a_load (fst p), collapse (fst p)))
     (the (run_rle (init_config (default_config\<lparr>hysteresis_s := 0\<rparr>)) init_engine
        [warm_sample, warm_sample, warm_sample, warm_sample, warm_sample]))
     = [(0.1, 0), (0.1, 0), (0.1, 0), (0.1, 0), (0.1, 1)]"
  by (simp add: warm_sample_def compute_rle_def compute_components_def compute_t_sustain_def
      rolling_stdev_def rolling_mean_def smooth_rle_def theta_update_if_needed_def pstdev_def
      py_slice_from_def theta_advance_def compute_micro_scale_factor_def w_from_fmu_def
      normalize_rle_def detect_collapse_def rb_push_def rb_len_def smooth_window_n_def
      py_div_def py_idx_def init_config_def default_config_def init_engine_def Let_def)

text \<open>
  Claim C6, amended: under the default gate thresholds (60 percent, 0.75) and a
  hysteresis count \<open>hysteresis_s\<close> of at least 1 (the default is 7), every call of a run
  whose sample has \<open>utilization_pct < 60\<close> and whose load factor is below 0.75 reports
  \<open>collapse = 0\<close> and resets the counter, whatever the engine has seen before, however
  many samples were fed and however far the smoothed score is below the rolling peak.
\<close>

theorem gate_closed_no_collapse:
  assumes run: "run_rle cfg e ss = Some out" and i: "i < length out"
    and thresholds: "util_gate_pct cfg = 60" "a_load_gate cfg = 0.75"
    and hyst: "1 \<le> hysteresis_s cfg"
    and quiet: "util_pct (ss ! i) < 60" "a_load (fst (out ! i)) < 0.75"
  shows "collapse (fst (out ! i)) = 0 \<and> below_ctr (snd (out ! i)) = 0"
proof -
  have step: "compute_rle cfg (if i = 0 then e else snd (out ! (i - 1)))
           (util_pct (ss ! i)) (temp_c (ss ! i)) (power_w (ss ! i)) (dt_s (ss ! i))
         = Some (fst (out ! i), snd (out ! i))"
    using run_rle_step [OF run i] by simp
  from quiet thresholds have "util_pct (ss ! i) \<le> util_gate_pct cfg"
    "a_load (fst (out ! i)) \<le> a_load_gate cfg"
    by simp_all
  moreover from hyst have "0 < hysteresis_s cfg" by simp
  ultimately show ?thesis by (rule compute_rle_gate_closed [OF step])
qed

text \<open>
  The theorem at the eighth of eight idle samples on a default engine: the warm-up
  (five calls) is over there, so the gate and the counter are evaluated.
\<close>

theorem gate_closed_no_collapse_witness:
  "\<exists>out. run_rle (init_config default_config) init_engine (replicate 8 idle_sample) = Some out
         \<and> 7 < length out
         \<and> util_gate_pct (init_config default_config) = 60
         \<and> a_load_gate (init_config default_config) = 0.75
         \<and> 1 \<le> hysteresis_s (init_config default_config)
         \<and> util_pct (replicate 8 idle_sample ! 7) < 60 \<and> a_load (fst (out ! 7)) < 0.75
         \<and> max (smooth_n (init_config default_config)) 5 \<le> int (length (rle_hist (snd (out ! 7))))
         \<and> collapse (fst (out ! 7)) = 0 \<and> below_ctr (snd (out ! 7)) = 0"
proof -
  from idle_runs_return obtain out where
    run: "run_rle (init_config default_config) init_engine (replicate 8 idle_sample) = Some out"
    by blast
  have len: "length out = 8" using run_rle_length [OF run] by simp
  then have i: "7 < length out" by simp
  have h: "util_gate_pct (init_config default_config) = 60"
    "a_load_gate (init_config default_config) = 0.75"
    "1 \<le> hysteresis_s (init_config default_config)"
    by (simp_all add: init_config_def default_config_def)
  have u: "util_pct (replicate 8 idle_sample ! 7) < 60" by (simp add: idle_sample_def)
  have "compute_rle (init_config default_config) (snd (out ! 6)) 5 (Some 40) (Some 10) 1
      = Some (fst (out ! 7), snd (out ! 7))"
    using run_rle_step [OF run i] by (simp add: idle_sample_def)
  from compute_rle_a_load [OF this] have al: "a_load (fst (out ! 7)) < 0.75"
    by (simp add: init_config_def default_config_def)
  from len have "out \<noteq> []" by auto
  then have "final_engine init_engine out = snd (out ! 7)"
    using len by (simp add: final_engine_def last_conv_nth)
  with run_rle_final(3) [OF run] len
  have armed: "max (smooth_n (init_config default_config)) 5
      \<le> int (length (rle_hist (snd (out ! 7))))"
    by (simp add: init_engine_def init_config_def default_config_def)
  from gate_closed_no_collapse [OF run i h u al] run i h u al armed show ?thesis by blast
qed

section \<open>The internal period\<close>


















end
